theory Spec2Isabelle
  imports Main "HOL-Library.Word"
begin

unbundle bit_operations_syntax

section \<open>Go values used by the code\<close>

text \<open>
  Bytes are \<open>8 word\<close>, \<open>uint32\<close> is \<open>32 word\<close>, \<open>time.Duration\<close> is a signed
  64-bit count of nanoseconds (\<open>64 word\<close>, read with \<open>sint\<close>).  Go's \<open>int\<close> has the
  width of the host (32 or 64 bits): it is \<open>'w word\<close>, read with \<open>sint\<close>, and the
  definitions are polymorphic in \<open>'w\<close>.  Arithmetic on all of them wraps around,
  as Go's does.
\<close>

type_synonym byte = "8 word"
type_synonym uint32 = "32 word"
type_synonym Duration = "64 word"

text \<open>\<open>make([]byte, n)\<close>: a fresh slice of \<open>n\<close> zero bytes.\<close>

definition make_bytes :: "nat \<Rightarrow> byte list" where
  "make_bytes n = replicate n 0"

text \<open>
  \<open>len(b)\<close> as a host \<open>int\<close>.  A Go slice never has more than \<open>2 ^ (w - 1) - 1\<close>
  elements, so on the slices the code can hold this is the exact length.
\<close>

definition len :: "'a list \<Rightarrow> 'w::len word" where
  "len b = of_nat (length b)"

text \<open>
  Package \<open>encoding/binary\<close>.  \<open>PutUint32(b, v)\<close> stores \<open>v\<close> in \<open>b[0..3]\<close> and
  \<open>Uint32(b)\<close> reads it back; both panic (\<open>None\<close>) on a slice shorter than four bytes.
\<close>

definition BigEndian_PutUint32 :: "byte list \<Rightarrow> uint32 \<Rightarrow> byte list option" where
  "BigEndian_PutUint32 b v =
     (if length b < 4 then None
      else Some ([ucast (drop_bit 24 v), ucast (drop_bit 16 v), ucast (drop_bit 8 v), ucast v]
                 @ drop 4 b))"

fun BigEndian_Uint32 :: "byte list \<Rightarrow> uint32 option" where
  "BigEndian_Uint32 (b0 # b1 # b2 # b3 # _) =
     Some (ucast b3 OR push_bit 8 (ucast b2) OR push_bit 16 (ucast b1) OR push_bit 24 (ucast b0))"
| "BigEndian_Uint32 _ = None"

definition LittleEndian_PutUint32 :: "byte list \<Rightarrow> uint32 \<Rightarrow> byte list option" where
  "LittleEndian_PutUint32 b v =
     (if length b < 4 then None
      else Some ([ucast v, ucast (drop_bit 8 v), ucast (drop_bit 16 v), ucast (drop_bit 24 v)]
                 @ drop 4 b))"

fun LittleEndian_Uint32 :: "byte list \<Rightarrow> uint32 option" where
  "LittleEndian_Uint32 (b0 # b1 # b2 # b3 # _) =
     Some (ucast b0 OR push_bit 8 (ucast b1) OR push_bit 16 (ucast b2) OR push_bit 24 (ucast b3))"
| "LittleEndian_Uint32 _ = None"

section \<open>Package cxds: the version stamp\<close>

definition Version :: int where
  "Version = 2"

text \<open>
  \<open>encodeUint32\<close> allocates four bytes and stores \<open>uint32(Version)\<close> in them; its
  parameter \<open>u\<close> does not occur in its body.
\<close>

definition encodeUint32 :: "uint32 \<Rightarrow> byte list option" where
  "encodeUint32 u = BigEndian_PutUint32 (make_bytes 4) (word_of_int Version)"

definition versionBytes :: "byte list option" where
  "versionBytes = encodeUint32 (word_of_int Version)"

definition decodeUint32 :: "byte list \<Rightarrow> uint32 option" where
  "decodeUint32 ub = BigEndian_Uint32 ub"

section \<open>Errors\<close>

text \<open>
  The error values the connection engine tells apart.  \<open>OnDialFilter\<close> inspects an
  error by type assertions: is it a \<open>net.Error\<close> (and what does its \<open>Temporary()\<close>
  answer), is it a \<open>*net.OpError\<close> whose \<open>Err\<close> is an \<open>*os.SyscallError\<close> whose
  \<open>Err\<close> is a \<open>syscall.Errno\<close>, or is it \<open>io.EOF\<close>.  The datatypes follow that
  nesting.  \<open>Temporary()\<close> is a method of the standard library; its answer is
  carried by the value.
\<close>

datatype syscall_err = Errno nat | OtherSyscallErr

datatype op_err = SyscallError syscall_err | OtherOpErr

datatype go_error =
    io_EOF
  | io_ErrUnexpectedEOF
  | OpError bool op_err
  | OtherNetError bool
  | OtherError string

fun is_net_Error :: "go_error \<Rightarrow> bool" where
  "is_net_Error (OpError t e) = True"
| "is_net_Error (OtherNetError t) = True"
| "is_net_Error _ = False"

fun Temporary :: "go_error \<Rightarrow> bool" where
  "Temporary (OpError t e) = t"
| "Temporary (OtherNetError t) = t"
| "Temporary _ = False"

section \<open>Package node: the dial filter\<close>

text \<open>
  \<open>OnDialFilter(c, err)\<close>: \<open>None\<close> is Go's \<open>nil\<close>.  The connection argument is
  not used by the body.
\<close>

definition OnDialFilter :: "'c \<Rightarrow> go_error option \<Rightarrow> go_error option" where
  "OnDialFilter c err =
     (case err of
        None \<Rightarrow> None
      | Some e \<Rightarrow>
          if is_net_Error e then
            (if Temporary e then None
             else (case e of
                     OpError t (SyscallError (Errno errno)) \<Rightarrow>
                       if errno = 0x68 then Some e else None
                   | _ \<Rightarrow> None))
          else if e = io_EOF then Some e
          else None)"

section \<open>Package gnet: connections and configuration\<close>

datatype ConnState = ConnStateConnected | ConnStateDialing | ConnStateClosed

text \<open>A \<open>net.Conn\<close> is a handle on a byte stream; handles are told apart by a number.\<close>

type_synonym net_Conn = nat

text \<open>
  The fields of \<open>Conn\<close> that the functions below read or write.  \<open>conn\<close> is
  \<open>None\<close> for Go's \<open>nil\<close>.  \<open>closeo\<close> says whether the \<open>sync.Once\<close> has fired
  and \<open>closed\<close> whether the channel \<open>c.closed\<close> has been closed.
\<close>

record Conn =
  address :: string
  conn :: "net_Conn option"
  state :: ConnState
  incoming :: bool
  closeo :: bool
  closed :: bool

text \<open>
  Modelled from the spec: the struct \<open>Config\<close> of package gnet is declared in a
  file that is not among the sources.  These are the fields \<open>conn.go\<close> reads, at the
  types it uses them: \<open>MaxMessageSize\<close> (maximum payload length, 0 = unbounded) and
  \<open>DialsLimit\<close> (maximum dial attempts, 0 = infinite) are host \<open>int\<close>s,
  \<open>RedialTimeout\<close> (initial backoff) and \<open>MaxRedialTimeout\<close> (upper bound of the
  backoff) are durations, \<open>OnDial\<close> is an optional callback from the connection and
  the last error to a rejection, \<open>OnCloseConnection\<close> an optional callback without a
  result (only whether it is set is recorded).
\<close>

record (overloaded) 'w Config =
  MaxMessageSize :: "'w word"
  RedialTimeout :: Duration
  MaxRedialTimeout :: Duration
  DialsLimit :: "'w word"
  OnDial :: "(Conn \<Rightarrow> go_error option \<Rightarrow> go_error option) option"
  OnCloseConnection :: bool

section \<open>Package gnet: the framed codec\<close>

text \<open>
  An \<open>io.Writer\<close>: the bytes it has accepted, the number of \<open>Write\<close> calls it
  has seen, and what its next calls will answer (\<open>None\<close>: success; \<open>Some (n, e)\<close>:
  error \<open>e\<close> after \<open>n\<close> bytes; an empty list: every call succeeds).
\<close>

record Writer =
  wrote :: "byte list"
  wcalls :: nat
  wfaults :: "(nat \<times> go_error) option list"

definition Write :: "Writer \<Rightarrow> byte list \<Rightarrow> Writer \<times> go_error option" where
  "Write w p =
     (case wfaults w of
        [] \<Rightarrow> (w\<lparr>wrote := wrote w @ p, wcalls := Suc (wcalls w)\<rparr>, None)
      | None # fs \<Rightarrow>
          (w\<lparr>wrote := wrote w @ p, wcalls := Suc (wcalls w), wfaults := fs\<rparr>, None)
      | Some (n, e) # fs \<Rightarrow>
          (w\<lparr>wrote := wrote w @ take n p, wcalls := Suc (wcalls w), wfaults := fs\<rparr>, Some e))"

text \<open>
  \<open>writeMsg(w, body)\<close> returns \<open>(terminate, err)\<close>; the model returns the writer
  as well.  \<open>isClosed\<close> is what \<open>c.isClosed()\<close> answers when a write fails.  The
  outer \<open>None\<close> is the panic of \<open>PutUint32\<close>.
\<close>

definition writeMsg ::
  "('w::len) Config \<Rightarrow> bool \<Rightarrow> Writer \<Rightarrow> byte list \<Rightarrow> (Writer \<times> bool \<times> go_error option) option"
where
  "writeMsg cfg isClosed w body =
     (if 0 < sint (MaxMessageSize cfg) \<and> sint (MaxMessageSize cfg) < sint (len body :: 'w word)
      then Some (w, True, None)
      else
        (case LittleEndian_PutUint32 (make_bytes 4) (ucast (len body :: 'w word)) of
           None \<Rightarrow> None
         | Some head \<Rightarrow>
             (case Write w head of
                (w1, Some err) \<Rightarrow> Some (w1, isClosed, Some err)
              | (w1, None) \<Rightarrow>
                  (case Write w1 body of
                     (w2, Some err) \<Rightarrow> Some (w2, isClosed, Some err)
                   | (w2, None) \<Rightarrow> Some (w2, False, None)))))"

text \<open>
  An \<open>io.Reader\<close>: the bytes the stream will still deliver, and the error of the
  read that finds none left.  \<open>io.ReadFull(r, buf)\<close> with \<open>len(buf) = n\<close> returns
  exactly \<open>n\<close> bytes or an error; the error is \<open>io.ErrUnexpectedEOF\<close> when the
  stream ends after some but not all of them.
\<close>

record Reader =
  avail :: "byte list"
  rfault :: go_error

definition ReadFull :: "Reader \<Rightarrow> nat \<Rightarrow> Reader \<times> (go_error + byte list)" where
  "ReadFull r n =
     (if n \<le> length (avail r)
      then (r\<lparr>avail := drop n (avail r)\<rparr>, Inr (take n (avail r)))
      else (r\<lparr>avail := []\<rparr>,
            Inl (if avail r \<noteq> [] \<and> rfault r = io_EOF then io_ErrUnexpectedEOF else rfault r)))"

text \<open>
  One iteration of \<open>ReadLoop\<close> in \<open>read()\<close>.  It ends in one of three ways: the
  function returns (and its deferred \<open>c.Close()\<close> runs), it calls
  \<open>c.triggerDialingRead(err, conn)\<close> and continues \<open>DialLoop\<close>, or it has put the
  body on \<open>c.readq\<close> and continues \<open>ReadLoop\<close>.  \<open>isClosed\<close> is the answer of
  \<open>c.isClosed()\<close> after a failed read; \<open>selClosed\<close> says that the final
  \<open>select\<close> took \<open><-c.closed\<close> rather than the send on \<open>c.readq\<close>.
  \<open>int(ln)\<close> is \<open>ucast\<close> to the host width.
\<close>

datatype read_exit = ReadShutdown | NegativeLength | ExceedsMaxSize | ReadPanic

datatype read_step =
    ReadReturn read_exit
  | ReadRedial go_error
  | ReadEnqueued "byte list"

definition ReadLoop_body ::
  "('w::len) Config \<Rightarrow> bool \<Rightarrow> bool \<Rightarrow> Reader \<Rightarrow> Reader \<times> read_step"
where
  "ReadLoop_body cfg isClosed selClosed r =
     (case ReadFull r 4 of
        (r1, Inl err) \<Rightarrow> (r1, if isClosed then ReadReturn ReadShutdown else ReadRedial err)
      | (r1, Inr head) \<Rightarrow>
          (case LittleEndian_Uint32 head of
             None \<Rightarrow> (r1, ReadReturn ReadPanic)
           | Some ln \<Rightarrow>
               (let l = (ucast ln :: 'w word) in
                if sint l < 0 then (r1, ReadReturn NegativeLength)
                else if 0 < sint (MaxMessageSize cfg) \<and> sint (MaxMessageSize cfg) < sint l
                then (r1, ReadReturn ExceedsMaxSize)
                else
                  (case ReadFull r1 (nat (sint l)) of
                     (r2, Inl err) \<Rightarrow>
                       (r2, if isClosed then ReadReturn ReadShutdown else ReadRedial err)
                   | (r2, Inr body) \<Rightarrow>
                       (r2, if selClosed then ReadReturn ReadShutdown else ReadEnqueued body)))))"

text \<open>
  The frame of a payload in the words of the spec: the length as four little-endian
  bytes, then the payload.  It is written with arithmetic on the length, not with
  the code's shifts, and compared with what \<open>writeMsg\<close> emits.
\<close>

definition spec_frame :: "byte list \<Rightarrow> byte list" where
  "spec_frame x =
     [of_nat (length x mod 256), of_nat (length x div 256 mod 256),
      of_nat (length x div 65536 mod 256), of_nat (length x div 16777216 mod 256)] @ x"

section \<open>Package gnet: the state of a connection and its pool\<close>

text \<open>
  What the functions of \<open>conn.go\<close> do to the world outside their local
  variables is recorded as a list of effects, in the order they happen: closing a
  byte stream, closing the channel \<open>c.closed\<close>, removing an address from the
  registry of the pool, calling the \<open>OnCloseConnection\<close> callback, sending or
  receiving on the redial channels \<open>c.dialtr\<close>, \<open>c.readd\<close> and \<open>c.writed\<close>,
  handing a stream to the read or write loop on \<open>c.dialrl\<close> or \<open>c.dialwl\<close>,
  calling \<open>c.dialing()\<close>, and arming a timer with \<open>time.After\<close>.
\<close>

datatype effect =
    NetConnClose net_Conn
  | CloseChan
  | PoolDelete string
  | CallOnCloseConnection string
  | SendDialtr "go_error option"
  | SendReadd
  | RecvReadd
  | SendWrited
  | RecvWrited
  | SendDialrl net_Conn
  | SendDialwl net_Conn
  | CallDialing
  | After Duration

text \<open>
  A connection together with what it reaches through \<open>c.p\<close>: the configuration
  \<open>c.p.conf\<close> and the keys of the registry \<open>c.p.conns\<close> (a map from addresses to
  connections; only the set of addresses is needed here).
\<close>

record (overloaded) 'w world =
  conf :: "'w Config"
  conns :: "string set"
  cn :: Conn
  effects :: "effect list"

definition State :: "'w world \<Rightarrow> ConnState" where
  "State w = state (cn w)"

text \<open>
  \<open>triggerDialing(err)\<close> sets the state and then blocks in a \<open>select\<close> between
  the send on \<open>c.dialtr\<close> and the closed channel; \<open>sent\<close> says which of the two
  happened.
\<close>

definition triggerDialing :: "go_error option \<Rightarrow> bool \<Rightarrow> 'w world \<Rightarrow> 'w world" where
  "triggerDialing err sent w =
     w\<lparr>cn := (cn w)\<lparr>state := ConnStateDialing\<rparr>,
       effects := effects w @ (if sent then [SendDialtr err] else [])\<rparr>"

definition closeConnection :: "'w world \<Rightarrow> 'w world" where
  "closeConnection w =
     (case conn (cn w) of
        None \<Rightarrow> w
      | Some s \<Rightarrow> w\<lparr>cn := (cn w)\<lparr>state := ConnStateClosed\<rparr>,
                    effects := effects w @ [NetConnClose s]\<rparr>)"

text \<open>
  Modelled from the spec: \<open>(*Pool).delete\<close> is declared in a file that is not among
  the sources.  The spec says that on close a connection removes itself from the
  registry of the pool.
\<close>

definition Pool_delete :: "string \<Rightarrow> 'w world \<Rightarrow> 'w world" where
  "Pool_delete a w = w\<lparr>conns := conns w - {a}, effects := effects w @ [PoolDelete a]\<rparr>"

text \<open>
  \<open>Close()\<close> runs its body under \<open>c.closeo.Do\<close>: at most once.
\<close>

definition Close :: "'w world \<Rightarrow> 'w world" where
  "Close w =
     (if closeo (cn w) then w
      else
        (let w1 = w\<lparr>cn := (cn w)\<lparr>closeo := True, closed := True\<rparr>,
                     effects := effects w @ [CloseChan]\<rparr>;
             w2 = closeConnection w1;
             w3 = Pool_delete (address (cn w2)) w2
         in if OnCloseConnection (conf w3)
            then w3\<lparr>effects := effects w3 @ [CallOnCloseConnection (address (cn w3))]\<rparr>
            else w3))"

definition updateConnection :: "net_Conn \<Rightarrow> 'w world \<Rightarrow> 'w world" where
  "updateConnection s w = w\<lparr>cn := (cn w)\<lparr>conn := Some s, state := ConnStateConnected\<rparr>\<rparr>"

text \<open>
  \<open>triggerReadWrite(conn)\<close> stores the stream and offers it on \<open>c.dialrl\<close> and
  \<open>c.dialwl\<close>; the nested \<open>select\<close>s end in one of five ways.
\<close>

datatype handoff = ReadThenWrite | ReadThenClosed | WriteThenRead | WriteThenClosed | HandoffClosed

fun handoff_effects :: "net_Conn \<Rightarrow> handoff \<Rightarrow> effect list" where
  "handoff_effects s ReadThenWrite = [SendDialrl s, SendDialwl s]"
| "handoff_effects s ReadThenClosed = [SendDialrl s]"
| "handoff_effects s WriteThenRead = [SendDialwl s, SendDialrl s]"
| "handoff_effects s WriteThenClosed = [SendDialwl s]"
| "handoff_effects s HandoffClosed = []"

definition triggerReadWrite :: "net_Conn \<Rightarrow> handoff \<Rightarrow> 'w world \<Rightarrow> 'w world" where
  "triggerReadWrite s h w =
     (let w1 = updateConnection s w in w1\<lparr>effects := effects w1 @ handoff_effects s h\<rparr>)"

text \<open>
  \<open>triggerDialingRead(err, conn)\<close> and \<open>triggerDialingWrite(err, conn)\<close>.  For
  an outgoing connection the two \<open>select\<close>s end in one of four ways: the other
  side had signalled already (\<open>OtherSideFirst\<close>), this side sends its signal and
  triggers dialing (\<open>Drive sent\<close>, with the outcome of \<open>triggerDialing\<close>), the
  other side's signal wins the second \<open>select\<close> (\<open>OtherSideRace\<close>), or the
  connection is seen closed (\<open>ShutdownSeen\<close>).
\<close>

datatype redial_select = OtherSideFirst | Drive bool | OtherSideRace | ShutdownSeen

definition triggerDialingRead ::
  "go_error \<Rightarrow> net_Conn \<Rightarrow> redial_select \<Rightarrow> 'w world \<Rightarrow> 'w world" where
  "triggerDialingRead err s sel w =
     (let w1 = w\<lparr>effects := effects w @ [NetConnClose s]\<rparr> in
      if incoming (cn w1) then Close w1
      else
        (case sel of
           OtherSideFirst \<Rightarrow> w1\<lparr>effects := effects w1 @ [RecvWrited]\<rparr>
         | Drive sent \<Rightarrow> triggerDialing (Some err) sent (w1\<lparr>effects := effects w1 @ [SendReadd]\<rparr>)
         | OtherSideRace \<Rightarrow> w1\<lparr>effects := effects w1 @ [RecvWrited]\<rparr>
         | ShutdownSeen \<Rightarrow> w1))"

definition triggerDialingWrite ::
  "go_error \<Rightarrow> net_Conn \<Rightarrow> redial_select \<Rightarrow> 'w world \<Rightarrow> 'w world" where
  "triggerDialingWrite err s sel w =
     (let w1 = w\<lparr>effects := effects w @ [NetConnClose s]\<rparr> in
      if incoming (cn w1) then Close w1
      else
        (case sel of
           OtherSideFirst \<Rightarrow> w1\<lparr>effects := effects w1 @ [RecvReadd]\<rparr>
         | Drive sent \<Rightarrow> triggerDialing (Some err) sent (w1\<lparr>effects := effects w1 @ [SendWrited]\<rparr>)
         | OtherSideRace \<Rightarrow> w1\<lparr>effects := effects w1 @ [RecvReadd]\<rparr>
         | ShutdownSeen \<Rightarrow> w1))"

text \<open>
  \<open>createConnection(address)\<close> and \<open>acceptConnection(c)\<close>.  \<open>new(Conn)\<close> has
  the zero value in every field, so \<open>state\<close> starts as \<open>ConnStateConnected\<close>, the
  constant numbered 0.  The activities these functions start with \<open>go\<close> are not
  part of them: the dial activity and the read and write activities are modelled
  below.
\<close>

definition createConnection :: "'w Config \<Rightarrow> string set \<Rightarrow> string \<Rightarrow> bool \<Rightarrow> 'w world" where
  "createConnection cfg registry a sent =
     triggerDialing None sent
       \<lparr>conf = cfg, conns = insert a registry,
        cn = \<lparr>address = a, conn = None, state = ConnStateConnected, incoming = False,
              closeo = False, closed = False\<rparr>,
        effects = []\<rparr>"

definition acceptConnection ::
  "'w Config \<Rightarrow> string set \<Rightarrow> net_Conn \<Rightarrow> string \<Rightarrow> handoff \<Rightarrow> string + 'w world" where
  "acceptConnection cfg registry s a h =
     (if a \<in> registry then Inl (''connection already exists '' @ a)
      else Inr (triggerReadWrite s h
        \<lparr>conf = cfg, conns = insert a registry,
         cn = \<lparr>address = a, conn = None, state = ConnStateConnected, incoming = True,
               closeo = False, closed = False\<rparr>,
         effects = []\<rparr>))"

section \<open>Package gnet: the dial activity\<close>

text \<open>
  The update of the backoff \<open>tm\<close> after a failed dial, lines 401 to 410 of
  \<open>conn.go\<close>; \<open>100 * time.Millisecond\<close> is \<open>100 * 1000000\<close> nanoseconds.
\<close>

definition redial_backoff :: "Duration \<Rightarrow> Duration \<Rightarrow> Duration" where
  "redial_backoff maxtm tm =
     (if sint tm < sint maxtm then
        (let tm1 = (if tm = 0 then 100 * 1000000 else tm * 2)
         in if sint maxtm < sint tm1 then maxtm else tm1)
      else tm)"

text \<open>
  The local variables of \<open>dial\<close> and the world it acts on.  The activity blocks
  where it waits for the outside; what the outside answers is a script of events:
  a trigger received from \<open>c.dialtr\<close>, the closed channel seen in a \<open>select\<close>,
  the failure of \<open>c.dialing()\<close> (with whether the connection is seen closed
  before the next attempt, by the \<open>select\<close> on the timer or by \<open>c.isClosed()\<close>),
  or its success (with the way the handoff ends).  A run ends when \<open>dial\<close> returns
  (\<open>Returned\<close>, with the reason), when the script is used up and the activity
  waits (\<open>Parked\<close>), or when the script offers an event the activity cannot meet
  where it stands (\<open>Mismatch\<close>).
\<close>

record (overloaded) 'w dial_state =
  wld :: "'w world"
  diallm :: "'w word"
  tm :: Duration
  err :: "go_error option"

datatype dial_event =
    Trigger "go_error option"
  | Shutdown
  | DialFailed go_error bool
  | DialSucceeded net_Conn handoff

datatype dial_exit = LimitExceeded | OnDialRejected | ClosedExit

datatype 'st dial_result =
    Returned dial_exit 'st
  | Parked 'st
  | Mismatch 'st

text \<open>
  The head of an iteration of \<open>DialLoop\<close>: the check of the limit, the decrement,
  and the \<open>OnDial\<close> callback.
\<close>

definition DialLoop_enter :: "('w::len) dial_state \<Rightarrow> 'w dial_state dial_result + 'w dial_state" where
  "DialLoop_enter st =
     (if diallm st = 0 then Inl (Returned LimitExceeded st)
      else
        (let st1 = st\<lparr>diallm := diallm st - 1\<rparr> in
         case OnDial (conf (wld st1)) of
           None \<Rightarrow> Inr st1
         | Some callback \<Rightarrow>
             (let st2 = st1\<lparr>err := callback (cn (wld st1)) (err st1)\<rparr> in
              if err st2 \<noteq> None then Inl (Returned OnDialRejected st2) else Inr st2)))"

definition add_effect :: "effect \<Rightarrow> ('w::len) dial_state \<Rightarrow> 'w dial_state" where
  "add_effect e st = st\<lparr>wld := (wld st)\<lparr>effects := effects (wld st) @ [e]\<rparr>\<rparr>"

definition dial_failed :: "go_error \<Rightarrow> ('w::len) dial_state \<Rightarrow> 'w dial_state" where
  "dial_failed e st =
     (let st1 = st\<lparr>err := Some e,
                   tm := redial_backoff (MaxRedialTimeout (conf (wld st))) (tm st)\<rparr>
      in if 0 < sint (tm st1) then add_effect (After (tm st1)) st1 else st1)"

fun TriggerLoop :: "('w::len) dial_state \<Rightarrow> dial_event list \<Rightarrow> 'w dial_state dial_result"
  and DialLoop :: "('w::len) dial_state \<Rightarrow> dial_event list \<Rightarrow> 'w dial_state dial_result" where
  "TriggerLoop st [] = Parked st"
| "TriggerLoop st (Trigger e # evs) =
     DialLoop (st\<lparr>err := e, tm := RedialTimeout (conf (wld st))\<rparr>) evs"
| "TriggerLoop st (Shutdown # evs) = Returned ClosedExit st"
| "TriggerLoop st (DialFailed e c # evs) = Mismatch st"
| "TriggerLoop st (DialSucceeded s h # evs) = Mismatch st"
| "DialLoop st evs =
     (case DialLoop_enter st of
        Inl r \<Rightarrow> r
      | Inr st1 \<Rightarrow>
          (let st2 = add_effect CallDialing st1 in
           case evs of
             [] \<Rightarrow> Parked st2
           | DialFailed e c # evs' \<Rightarrow>
               (if c then Returned ClosedExit (dial_failed e st2)
                else DialLoop (dial_failed e st2) evs')
           | DialSucceeded s h # evs' \<Rightarrow>
               TriggerLoop (st2\<lparr>err := None, wld := triggerReadWrite s h (wld st2)\<rparr>) evs'
           | Trigger e # evs' \<Rightarrow> Mismatch st2
           | Shutdown # evs' \<Rightarrow> Mismatch st2))"

text \<open>
  \<open>dial(diallm)\<close>: zero becomes \<open>-1\<close>, the loops run, and the deferred
  \<open>c.Close()\<close> runs when the function returns.  The channel \<open>c.closed\<close> is
  closed by \<open>Close()\<close> only, so a run that returns because it saw the channel
  closed follows a \<open>Close()\<close> made elsewhere, and its own deferred call finds the
  \<open>sync.Once\<close> fired.  The model has this one activity: it applies that
  \<open>Close()\<close> where the activity returns.
\<close>

definition dial :: "('w::len) world \<Rightarrow> 'w word \<Rightarrow> dial_event list \<Rightarrow> 'w dial_state dial_result" where
  "dial w diallm0 evs =
     (case TriggerLoop \<lparr>wld = w, diallm = (if diallm0 = 0 then diallm0 - 1 else diallm0),
                        tm = 0, err = None\<rparr> evs of
        Returned x st \<Rightarrow> Returned x (st\<lparr>wld := Close (wld st)\<rparr>)
      | Parked st \<Rightarrow> Parked st
      | Mismatch st \<Rightarrow> Mismatch st)"

section \<open>Observations on runs\<close>

text \<open>
  The effects that touch the redial channels, the number of calls of
  \<open>c.dialing()\<close> among a list of effects, the state a run ends in, the script of
  consecutive failed dials, and the number of dial attempts made plus the attempts
  the counter still allows.
\<close>

definition redial_op :: "effect \<Rightarrow> bool" where
  "redial_op e = (case e of
       SendDialtr x \<Rightarrow> True | SendReadd \<Rightarrow> True | RecvReadd \<Rightarrow> True
     | SendWrited \<Rightarrow> True | RecvWrited \<Rightarrow> True | _ \<Rightarrow> False)"

definition dial_attempts :: "effect list \<Rightarrow> nat" where
  "dial_attempts es = length (filter (\<lambda>e. e = CallDialing) es)"

fun result_state :: "'st dial_result \<Rightarrow> 'st" where
  "result_state (Returned x st) = st"
| "result_state (Parked st) = st"
| "result_state (Mismatch st) = st"

definition fails :: "go_error list \<Rightarrow> dial_event list" where
  "fails es = map (\<lambda>e. DialFailed e False) es"

definition dial_budget :: "('w::len) dial_state \<Rightarrow> nat" where
  "dial_budget st = dial_attempts (effects (wld st)) + unat (diallm st)"

section \<open>Package gnet: the read and write activities\<close>

text \<open>
  \<open>ReadLoop\<close> of \<open>read()\<close> on one stream: iterations of \<open>ReadLoop_body\<close> until
  the function returns (\<open>EndReturn\<close>) or a failed read makes it call
  \<open>c.triggerDialingRead(err, conn)\<close> and continue \<open>DialLoop\<close> (\<open>EndRedial\<close>).  The
  second component is the list of bodies put on \<open>c.readq\<close>.  \<open>sendsLeft\<close> is the
  number of sends on \<open>c.readq\<close> that are taken before the final \<open>select\<close> takes
  \<open><-c.closed\<close> instead; \<open>None\<close> says that every send is taken.  The stream is a
  finite list of bytes and every frame put on the queue has consumed its head, so
  the loop ends.
\<close>

datatype read_end = EndReturn read_exit | EndRedial go_error

function ReadLoop ::
  "('w::len) Config \<Rightarrow> bool \<Rightarrow> nat option \<Rightarrow> Reader \<Rightarrow> read_end \<times> byte list list"
where
  "ReadLoop cfg isClosed sendsLeft r =
     (case ReadLoop_body cfg isClosed (sendsLeft = Some 0) r of
        (r1, ReadReturn x) \<Rightarrow> (EndReturn x, [])
      | (r1, ReadRedial e) \<Rightarrow> (EndRedial e, [])
      | (r1, ReadEnqueued body) \<Rightarrow>
          (case ReadLoop cfg isClosed (map_option (\<lambda>n. n - 1) sendsLeft) r1 of
             (x, q) \<Rightarrow> (x, body # q)))"
  by pat_completeness auto
termination
  apply (relation "measure (\<lambda>(cfg, isClosed, sendsLeft, r). length (avail r))")
   apply simp
  apply (auto simp: ReadLoop_body_def ReadFull_def Let_def
      split: if_splits prod.splits sum.splits option.splits)
  done

declare ReadLoop.simps [simp del]

text \<open>
  The goroutines \<open>read()\<close> and \<open>write()\<close> are run, as \<open>dial\<close> is, against a
  script of what their blocking points receive.  A run ends in one of three ways:
  the function returns (\<open>Exited\<close>), the script is used up and the function blocks
  at a \<open>select\<close> (\<open>Waiting\<close>), or the next event of the script is one that the
  \<open>select\<close> at which the function stands cannot take (\<open>Unmet\<close>).
\<close>

datatype ('x, 'st) run = Exited 'x 'st | Waiting 'st | Unmet 'st

fun run_state :: "('x, 'st) run \<Rightarrow> 'st" where
  "run_state (Exited x st) = st"
| "run_state (Waiting st) = st"
| "run_state (Unmet st) = st"

text \<open>
  \<open>read()\<close>.  At the \<open>select\<close> of \<open>DialLoop\<close> the function receives a stream on
  \<open>c.dialrl\<close> or sees \<open>c.closed\<close> closed.  \<open>RHandoff s r isClosed sendsLeft sel\<close>
  is the stream \<open>s\<close> with everything the environment decides while it is read:
  the bytes and the error \<open>r\<close> that \<open>connectionReader(conn)\<close> will deliver, whether
  another goroutine has closed \<open>c.closed\<close> in the meantime (\<open>c.isClosed()\<close> answers
  \<open>isClosed\<close>, or true when this goroutine's world has the channel closed), how
  many sends on \<open>c.readq\<close> are taken, and how the \<open>select\<close>s of
  \<open>triggerDialingRead\<close> go.  \<open>RShutdown\<close> is the case \<open><-c.closed\<close>.  With the
  script used up the \<open>select\<close> blocks unless \<open>c.closed\<close> is closed.  The state of
  a run is the world and the bodies put on \<open>c.readq\<close>.  \<open>read\<close> adds the deferred
  \<open>c.Close()\<close> to a run that returns.
\<close>

datatype read_event = RHandoff net_Conn Reader bool "nat option" redial_select | RShutdown

definition read_stream ::
  "('w::len) world \<Rightarrow> byte list list \<Rightarrow> net_Conn \<Rightarrow> Reader \<Rightarrow> bool \<Rightarrow> nat option
     \<Rightarrow> redial_select
     \<Rightarrow> (read_exit, 'w world \<times> byte list list) run + ('w world \<times> byte list list)" where
  "read_stream w q s r isClosed sendsLeft sel =
     (case ReadLoop (conf w) (isClosed \<or> closed (cn w)) sendsLeft r of
        (EndReturn x, d) \<Rightarrow> Inl (Exited x (w, q @ d))
      | (EndRedial e, d) \<Rightarrow> Inr (triggerDialingRead e s sel w, q @ d))"

fun read_DialLoop ::
  "('w::len) world \<Rightarrow> byte list list \<Rightarrow> read_event list
    \<Rightarrow> (read_exit, 'w world \<times> byte list list) run"
where
  "read_DialLoop w q [] =
     (if closed (cn w) then Exited ReadShutdown (w, q) else Waiting (w, q))"
| "read_DialLoop w q (RShutdown # evs) = Exited ReadShutdown (w, q)"
| "read_DialLoop w q (RHandoff s r isClosed sendsLeft sel # evs) =
     (case read_stream w q s r isClosed sendsLeft sel of
        Inl res \<Rightarrow> res
      | Inr (w1, q1) \<Rightarrow> read_DialLoop w1 q1 evs)"

definition read ::
  "('w::len) world \<Rightarrow> read_event list \<Rightarrow> (read_exit, 'w world \<times> byte list list) run" where
  "read w evs =
     (case read_DialLoop w [] evs of
        Exited x (w', q) \<Rightarrow> Exited x (Close w', q)
      | Waiting st \<Rightarrow> Waiting st
      | Unmet st \<Rightarrow> Unmet st)"

text \<open>
  \<open>bw.Flush()\<close> of a buffered writer: it consumes the next entry of the writer's
  script of faults, as a call of \<open>Write\<close> does.
\<close>

definition Flush :: "Writer \<Rightarrow> Writer \<times> go_error option" where
  "Flush w =
     (case wfaults w of
        [] \<Rightarrow> (w, None)
      | None # fs \<Rightarrow> (w\<lparr>wfaults := fs\<rparr>, None)
      | Some (n, e) # fs \<Rightarrow> (w\<lparr>wfaults := fs\<rparr>, Some e))"

text \<open>
  \<open>write()\<close>.  \<open>WHandoff\<close> is a stream received on \<open>c.dialwl\<close> with what
  \<open>connectionWriter(conn)\<close> makes of it and what the environment decides while it
  is written: the writer \<open>ws_w\<close>, whether it is buffered (\<open>ws_bw\<close> says
  \<open>bw != nil\<close>), the answer \<open>ws_isClosed\<close> of \<open>c.isClosed()\<close> (true as well when
  this goroutine's world has the channel closed), and how the \<open>select\<close>s of
  \<open>triggerDialingWrite\<close> go.  \<open>WShutdown\<close> is the case \<open><-c.closed\<close>, \<open>WReadd\<close>
  the case \<open><-c.readd\<close>, \<open>WBody body\<close> a message received from \<open>c.writeq\<close>,
  and \<open>WIdle\<close> says that \<open>c.writeq\<close> is empty when the inner loop polls it, so
  that its \<open>select\<close> takes \<open>default\<close>.  \<open>acceptConnection\<close> leaves \<open>c.readd\<close>
  \<open>nil\<close>, and a receive from a \<open>nil\<close> channel is never taken: on an incoming
  connection \<open>WReadd\<close> is an event the \<open>select\<close> cannot take.

  \<open>write_body\<close> is the statement
  \<open>if terminate, err = c.writeMsg(w, body); terminate {return} else if err != nil
  {c.triggerDialingWrite(err, conn); continue DialLoop}\<close>, which the function has
  twice, and \<open>write_flush\<close> is the \<open>default\<close> branch of the inner loop up to its
  \<open>continue WriteLoop\<close>.  Each says how the function goes on: it returns
  (\<open>WriteExit\<close>), it continues \<open>DialLoop\<close> in the world the handler has left
  (\<open>WriteRedial\<close>), or it goes on with the stream (\<open>WriteOn\<close>).  \<open>write_DialLoop\<close>
  is the function at the \<open>select\<close> of \<open>DialLoop\<close>, \<open>WriteLoop\<close> at the \<open>select\<close>
  of \<open>WriteLoop\<close>, and \<open>write_drain\<close> at the \<open>select\<close> of the inner loop, which
  does not block: with the script used up it takes \<open>default\<close>.  The state of a run
  is the world and the writers of the streams written so far.  \<open>Conn_write\<close>
  (\<open>write\<close> is a keyword of Isar) adds the deferred \<open>c.Close()\<close> to a run that
  returns.
\<close>

record write_stream =
  ws_conn :: net_Conn
  ws_w :: Writer
  ws_bw :: bool
  ws_isClosed :: bool
  ws_sel :: redial_select

datatype write_event =
    WHandoff write_stream
  | WShutdown
  | WReadd
  | WBody "byte list"
  | WIdle

datatype write_exit = WriteShutdown | WriteTerminate | WritePanic

datatype ('w, 'x) write_next =
    WriteExit 'x
  | WriteRedial 'w
  | WriteOn write_stream

definition write_body ::
  "('w::len) world \<Rightarrow> Writer list \<Rightarrow> write_stream \<Rightarrow> byte list
     \<Rightarrow> ('w world \<times> Writer list, (write_exit, 'w world \<times> Writer list) run) write_next" where
  "write_body w ws st body =
     (case writeMsg (conf w) (ws_isClosed st \<or> closed (cn w)) (ws_w st) body of
        None \<Rightarrow> WriteExit (Exited WritePanic (w, ws @ [ws_w st]))
      | Some (w1, terminate, er) \<Rightarrow>
          if terminate then WriteExit (Exited WriteTerminate (w, ws @ [w1]))
          else
            (case er of
               Some e \<Rightarrow>
                 WriteRedial (triggerDialingWrite e (ws_conn st) (ws_sel st) w, ws @ [w1])
             | None \<Rightarrow> WriteOn (st\<lparr>ws_w := w1\<rparr>)))"

definition write_flush ::
  "('w::len) world \<Rightarrow> Writer list \<Rightarrow> write_stream
     \<Rightarrow> ('w world \<times> Writer list, (write_exit, 'w world \<times> Writer list) run) write_next" where
  "write_flush w ws st =
     (if ws_bw st then
        (case Flush (ws_w st) of
           (w1, Some e) \<Rightarrow>
             if ws_isClosed st \<or> closed (cn w)
             then WriteExit (Exited WriteShutdown (w, ws @ [w1]))
             else WriteRedial (triggerDialingWrite e (ws_conn st) (ws_sel st) w, ws @ [w1])
         | (w1, None) \<Rightarrow> WriteOn (st\<lparr>ws_w := w1\<rparr>))
      else WriteOn st)"

fun write_DialLoop ::
  "('w::len) world \<Rightarrow> Writer list \<Rightarrow> write_event list
    \<Rightarrow> (write_exit, 'w world \<times> Writer list) run"
  and WriteLoop ::
  "('w::len) world \<Rightarrow> Writer list \<Rightarrow> write_stream \<Rightarrow> write_event list
    \<Rightarrow> (write_exit, 'w world \<times> Writer list) run"
  and write_drain ::
  "('w::len) world \<Rightarrow> Writer list \<Rightarrow> write_stream \<Rightarrow> write_event list
    \<Rightarrow> (write_exit, 'w world \<times> Writer list) run"
where
  "write_DialLoop w ws [] =
     (if closed (cn w) then Exited WriteShutdown (w, ws) else Waiting (w, ws))"
| "write_DialLoop w ws (WHandoff st # evs) = WriteLoop w ws st evs"
| "write_DialLoop w ws (WShutdown # evs) = Exited WriteShutdown (w, ws)"
| "write_DialLoop w ws (WReadd # evs) = Unmet (w, ws)"
| "write_DialLoop w ws (WBody body # evs) = Unmet (w, ws)"
| "write_DialLoop w ws (WIdle # evs) = Unmet (w, ws)"
| "WriteLoop w ws st [] =
     (if closed (cn w) then Exited WriteShutdown (w, ws @ [ws_w st])
      else Waiting (w, ws @ [ws_w st]))"
| "WriteLoop w ws st (WBody body # evs) =
     (case write_body w ws st body of
        WriteExit res \<Rightarrow> res
      | WriteRedial (w1, ws1) \<Rightarrow> write_DialLoop w1 ws1 evs
      | WriteOn st1 \<Rightarrow> write_drain w ws st1 evs)"
| "WriteLoop w ws st (WReadd # evs) =
     (if incoming (cn w) then Unmet (w, ws @ [ws_w st])
      else write_DialLoop (w\<lparr>effects := effects w @ [RecvReadd]\<rparr>) (ws @ [ws_w st]) evs)"
| "WriteLoop w ws st (WShutdown # evs) = Exited WriteShutdown (w, ws @ [ws_w st])"
| "WriteLoop w ws st (WHandoff st' # evs) = Unmet (w, ws @ [ws_w st])"
| "WriteLoop w ws st (WIdle # evs) = Unmet (w, ws @ [ws_w st])"
| "write_drain w ws st [] =
     (case write_flush w ws st of
        WriteExit res \<Rightarrow> res
      | WriteRedial (w1, ws1) \<Rightarrow>
          if closed (cn w1) then Exited WriteShutdown (w1, ws1) else Waiting (w1, ws1)
      | WriteOn st1 \<Rightarrow>
          if closed (cn w) then Exited WriteShutdown (w, ws @ [ws_w st1])
          else Waiting (w, ws @ [ws_w st1]))"
| "write_drain w ws st (WBody body # evs) =
     (case write_body w ws st body of
        WriteExit res \<Rightarrow> res
      | WriteRedial (w1, ws1) \<Rightarrow> write_DialLoop w1 ws1 evs
      | WriteOn st1 \<Rightarrow> write_drain w ws st1 evs)"
| "write_drain w ws st (WIdle # evs) =
     (case write_flush w ws st of
        WriteExit res \<Rightarrow> res
      | WriteRedial (w1, ws1) \<Rightarrow> write_DialLoop w1 ws1 evs
      | WriteOn st1 \<Rightarrow> WriteLoop w ws st1 evs)"
| "write_drain w ws st (WHandoff st' # evs) = Unmet (w, ws @ [ws_w st])"
| "write_drain w ws st (WShutdown # evs) = Unmet (w, ws @ [ws_w st])"
| "write_drain w ws st (WReadd # evs) = Unmet (w, ws @ [ws_w st])"

definition Conn_write ::
  "('w::len) world \<Rightarrow> write_event list \<Rightarrow> (write_exit, 'w world \<times> Writer list) run" where
  "Conn_write w evs =
     (case write_DialLoop w [] evs of
        Exited x (w', ws) \<Rightarrow> Exited x (Close w', ws)
      | Waiting st \<Rightarrow> Waiting st
      | Unmet st \<Rightarrow> Unmet st)"

text \<open>
  The world after \<open>conn.Close()\<close> on the stream \<open>s\<close>, the first statement of
  \<open>triggerDialingRead\<close> and of \<open>triggerDialingWrite\<close>.
\<close>

definition stream_closed :: "net_Conn \<Rightarrow> 'w world \<Rightarrow> 'w world" where
  "stream_closed s w = w\<lparr>effects := effects w @ [NetConnClose s]\<rparr>"

section \<open>Concrete configurations and inputs\<close>

definition cfg16 :: "32 Config" where
  "cfg16 = \<lparr>MaxMessageSize = 16, RedialTimeout = 0, MaxRedialTimeout = 0, DialsLimit = 0,
            OnDial = None, OnCloseConnection = False\<rparr>"

definition cfg_unbounded :: "64 Config" where
  "cfg_unbounded = \<lparr>MaxMessageSize = 0, RedialTimeout = 0, MaxRedialTimeout = 0,
            DialsLimit = 0, OnDial = None, OnCloseConnection = False\<rparr>"

definition w0 :: Writer where
  "w0 = \<lparr>wrote = [], wcalls = 0, wfaults = []\<rparr>"

definition payload_4GiB :: "byte list" where
  "payload_4GiB = replicate 4294967296 0"

text \<open>\<open>refused\<close> is "connection refused": errno \<open>0x6f\<close> in a \<open>SyscallError\<close> in an \<open>OpError\<close>.\<close>

definition refused :: go_error where
  "refused = OpError False (SyscallError (Errno 0x6f))"

definition cfg_retry32 :: "32 Config" where
  "cfg_retry32 = \<lparr>MaxMessageSize = 0, RedialTimeout = 0, MaxRedialTimeout = 0, DialsLimit = 0,
            OnDial = None, OnCloseConnection = False\<rparr>"

definition cfg_over :: "64 Config" where
  "cfg_over = \<lparr>MaxMessageSize = 0, RedialTimeout = 10 * 1000000000,
            MaxRedialTimeout = 5 * 1000000000, DialsLimit = 0,
            OnDial = None, OnCloseConnection = False\<rparr>"

definition cfg_backoff :: "64 Config" where
  "cfg_backoff = \<lparr>MaxMessageSize = 0, RedialTimeout = 0, MaxRedialTimeout = 5 * 1000000000,
            DialsLimit = 0, OnDial = None, OnCloseConnection = False\<rparr>"

definition cfg_incoming :: "64 Config" where
  "cfg_incoming = \<lparr>MaxMessageSize = 0, RedialTimeout = 0, MaxRedialTimeout = 0,
            DialsLimit = 0, OnDial = None, OnCloseConnection = True\<rparr>"

definition world32 :: "32 world" where
  "world32 = createConnection cfg_retry32 {} ''peer'' True"

definition world_backoff :: "64 world" where
  "world_backoff = createConnection cfg_backoff {} ''peer'' True"

definition world_zero :: "64 world" where
  "world_zero = createConnection cfg_unbounded {} ''peer'' True"

definition world_over :: "64 world" where
  "world_over = createConnection cfg_over {} ''peer'' True"

definition cfg_limit2 :: "64 Config" where
  "cfg_limit2 = \<lparr>MaxMessageSize = 0, RedialTimeout = 0, MaxRedialTimeout = 400 * 1000000,
            DialsLimit = 2, OnDial = None, OnCloseConnection = True\<rparr>"

definition world_limit2 :: "64 world" where
  "world_limit2 = createConnection cfg_limit2 {} ''peer'' True"

definition world_incoming :: "64 world" where
  "world_incoming =
     \<lparr>conf = cfg_incoming, conns = {''peer''},
      cn = \<lparr>address = ''peer'', conn = Some 7, state = ConnStateConnected, incoming = True,
            closeo = False, closed = False\<rparr>,
      effects = [SendDialrl 7, SendDialwl 7]\<rparr>"

text \<open>
  A stream that delivers the frame of the one-byte message \<open>5\<close> and ends inside the
  next head; "connection reset by peer"; and two streams to write on, the first
  failing at its first call and the second at its third.
\<close>

definition stream_short :: Reader where
  "stream_short = \<lparr>avail = [1, 0, 0, 0, 5, 2, 0, 0], rfault = io_EOF\<rparr>"

definition reset :: go_error where
  "reset = OpError False (SyscallError (Errno 0x68))"

definition ws_first_fails :: write_stream where
  "ws_first_fails =
     \<lparr>ws_conn = 7, ws_w = \<lparr>wrote = [], wcalls = 0, wfaults = [Some (0, reset)]\<rparr>,
      ws_bw = True, ws_isClosed = False, ws_sel = Drive True\<rparr>"

definition ws_later_fails :: write_stream where
  "ws_later_fails =
     \<lparr>ws_conn = 7, ws_w = \<lparr>wrote = [], wcalls = 0, wfaults = [None, None, Some (0, reset)]\<rparr>,
      ws_bw = True, ws_isClosed = False, ws_sel = Drive True\<rparr>"

section \<open>Properties of the byte order functions\<close>

lemma BigEndian_Uint32_PutUint32:
  "length b \<ge> 4 \<Longrightarrow> Option.bind (BigEndian_PutUint32 b v) BigEndian_Uint32 = Some v"
  unfolding BigEndian_PutUint32_def
  apply simp
  apply (rule bit_word_eqI)
  subgoal for n
    by (cases "n < 8"; cases "n < 16"; cases "n < 24") (auto simp: bit_simps)
  done

lemma LittleEndian_head_roundtrip:
  "LittleEndian_PutUint32 (make_bytes 4) v = Some h \<Longrightarrow> LittleEndian_Uint32 (h @ rest) = Some v"
  unfolding LittleEndian_PutUint32_def make_bytes_def
  apply (clarsimp)
  apply (rule bit_word_eqI)
  subgoal for n
    by (cases "n < 8"; cases "n < 16"; cases "n < 24") (auto simp: bit_simps)
  done

lemma LittleEndian_PutUint32_make:
  "\<exists>h. LittleEndian_PutUint32 (make_bytes 4) v = Some h \<and> length h = 4"
  by (simp add: LittleEndian_PutUint32_def make_bytes_def)

section \<open>The version stamp of cxds\<close>

text \<open>
  Claim C10.  \<open>encodeUint32 u\<close> does not depend on \<open>u\<close>: for every \<open>u\<close> it returns
  the four bytes \<open>00 00 00 02\<close>, the big-endian encoding of \<open>Version = 2\<close>.  So
  decoding what it returns gives 2 whatever \<open>u\<close> was, and \<open>versionBytes()\<close> is the
  same slice as \<open>encodeUint32\<close> of any argument.
\<close>

theorem encodeUint32_ignores_argument:
  "encodeUint32 u = Some [0, 0, 0, 2]
   \<and> encodeUint32 u = BigEndian_PutUint32 (make_bytes 4) (word_of_int Version)
   \<and> Version = 2
   \<and> Option.bind (encodeUint32 u) decodeUint32 = Some 2
   \<and> versionBytes = encodeUint32 u"
  by (simp add: encodeUint32_def versionBytes_def decodeUint32_def Version_def
      BigEndian_PutUint32_def make_bytes_def)

section \<open>The dial filter\<close>

text \<open>
  Claim C7, as amended.  For every error handed to \<open>OnDialFilter\<close>: a temporary
  network error gives \<open>nil\<close>; an error that is not a temporary network error
  and is \<open>io.EOF\<close>, or an \<open>OpError\<close> wrapping a \<open>SyscallError\<close> wrapping errno
  \<open>0x68\<close>, is given back; every other error, and \<open>nil\<close>, gives \<open>nil\<close>.
\<close>

theorem OnDialFilter_cases:
  "OnDialFilter c er =
     (if \<exists>e. er = Some e \<and> is_net_Error e \<and> Temporary e then None
      else if er = Some io_EOF
              \<or> (\<exists>t. er = Some (OpError t (SyscallError (Errno 0x68)))) then er
      else None)"
  by (auto simp: OnDialFilter_def split: option.splits go_error.splits op_err.splits
      syscall_err.splits)

text \<open>
  The claim as stated gives the error back for every \<open>OpError\<close> that wraps a
  \<open>SyscallError\<close> that wraps errno \<open>0x68\<close>.  \<open>OnDialFilter\<close> asks \<open>Temporary()\<close>
  first and returns \<open>nil\<close> when the answer is true, before it looks at the errno:
  for such an error whose \<open>Temporary()\<close> answers true the filter returns \<open>nil\<close>,
  and the connection redials.
\<close>

theorem OnDialFilter_counterexample:
  "is_net_Error (OpError True (SyscallError (Errno 0x68)))
   \<and> Temporary (OpError True (SyscallError (Errno 0x68)))
   \<and> OnDialFilter (cn world_incoming) (Some (OpError True (SyscallError (Errno 0x68)))) = None
   \<and> OnDialFilter (cn world_incoming) (Some (OpError True (SyscallError (Errno 0x68))))
       \<noteq> Some (OpError True (SyscallError (Errno 0x68)))"
  by (simp add: OnDialFilter_def)

section \<open>Machine integers\<close>

lemma sint_eq_uint_small:
  fixes x :: "'a::len word"
  assumes "uint x < 2 ^ (LENGTH('a) - 1)"
  shows "sint x = uint x"
proof -
  have "- (2 ^ (LENGTH('a) - Suc 0)) \<le> uint x"
    by (rule order_trans [of _ 0]) simp_all
  with assms show ?thesis
    by (simp add: sint_uint signed_take_bit_int_eq_self)
qed

lemma uint_of_nat_small:
  assumes "n < 2 ^ LENGTH('a::len)"
  shows "uint (of_nat n :: 'a word) = int n"
  using assms by (simp add: uint_nat unat_of_nat)

lemma sint_of_nat_small:
  assumes "n < 2 ^ (LENGTH('a::len) - 1)"
  shows "sint (of_nat n :: 'a word) = int n"
proof -
  have "(2::nat) ^ (LENGTH('a) - 1) \<le> 2 ^ LENGTH('a)"
    by (rule power_increasing) simp_all
  with assms have lt: "n < 2 ^ LENGTH('a)" by linarith
  have u: "uint (of_nat n :: 'a word) = int n"
    by (rule uint_of_nat_small [OF lt])
  have "int n < 2 ^ (LENGTH('a) - 1)"
    using assms by (metis of_nat_less_iff of_nat_numeral of_nat_power)
  then show ?thesis
    using sint_eq_uint_small [of "of_nat n :: 'a word"] u by simp
qed

lemma ucast_of_nat_32:
  assumes "32 \<le> LENGTH('w::len)"
  shows "(ucast (of_nat n :: 'w word) :: 32 word) = of_nat n"
  using assms
  by (intro bit_word_eqI) (auto simp: bit_simps)

lemma uint_ucast_32:
  assumes "32 \<le> LENGTH('w::len)"
  shows "uint (ucast (ln :: 32 word) :: 'w word) = uint ln"
  by (rule uint_up_ucast) (simp add: is_up assms)

lemma sint_negative_big:
  fixes y :: "'a::len word"
  assumes "2 ^ (LENGTH('a) - 1) \<le> uint y"
  shows "sint y < 0"
proof -
  let ?n = "LENGTH('a) - 1"
  have len: "Suc ?n = LENGTH('a)" by simp
  have p: "(2::int) ^ LENGTH('a) = 2 * 2 ^ ?n"
    by (metis len power_Suc)
  have ub: "uint y < 2 * 2 ^ ?n"
    using uint_lt2p [of y] p by simp
  have "take_bit (Suc ?n) (uint y + 2 ^ ?n) = (uint y + 2 ^ ?n) mod (2 * 2 ^ ?n)"
    by (simp only: take_bit_eq_mod power_Suc)
  also have "\<dots> = (uint y + 2 ^ ?n - 2 * 2 ^ ?n) mod (2 * 2 ^ ?n)"
    by (metis minus_mod_self2)
  also have "\<dots> = uint y + 2 ^ ?n - 2 * 2 ^ ?n"
    using assms ub by (intro mod_pos_pos_trivial) auto
  finally have "signed_take_bit ?n (uint y) = uint y - 2 * 2 ^ ?n"
    by (simp only: signed_take_bit_eq_take_bit_shift)
  then have "sint y = uint y - 2 * 2 ^ ?n"
    by (simp add: sint_uint)
  with ub show ?thesis by simp
qed

section \<open>Properties of the framed codec\<close>

lemma ucast_drop_bit_of_nat:
  "(ucast (drop_bit k (of_nat n :: 32 word)) :: 8 word) = of_nat (take_bit 32 n div 2 ^ k mod 256)"
proof -
  have "unat (drop_bit k (of_nat n :: 32 word)) = take_bit 32 n div 2 ^ k"
  proof -
    have "unat (drop_bit k (of_nat n :: 32 word)) = drop_bit k (unat (of_nat n :: 32 word))"
      by (rule unat_drop_bit_eq)
    also have "unat (of_nat n :: 32 word) = take_bit 32 n"
      by (simp add: unsigned_of_nat)
    finally show ?thesis
      by (simp only: drop_bit_eq_div)
  qed
  then have "(ucast (drop_bit k (of_nat n :: 32 word)) :: 8 word) = of_nat (take_bit 32 n div 2 ^ k)"
    by (metis of_nat_unat)
  also have "\<dots> = of_nat (take_bit 32 n div 2 ^ k mod 256)"
    by (simp add: word_of_nat_eq_iff take_bit_eq_mod)
  finally show ?thesis .
qed

lemma PutUint32_len:
  assumes "n < 2 ^ 32"
  shows "LittleEndian_PutUint32 (make_bytes 4) (of_nat n) =
     Some [of_nat (n mod 256), of_nat (n div 256 mod 256),
      of_nat (n div 65536 mod 256), of_nat (n div 16777216 mod 256)]"
proof -
  have t: "take_bit 32 n = n" using assms by (simp add: take_bit_nat_eq_self)
  have a: "(ucast (of_nat n :: 32 word) :: 8 word) = of_nat (n mod 256)"
    using ucast_drop_bit_of_nat [of 0 n] by (simp add: t)
  have b: "(ucast (drop_bit 8 (of_nat n :: 32 word)) :: 8 word) = of_nat (n div 256 mod 256)"
    using ucast_drop_bit_of_nat [of 8 n] by (simp add: t)
  have c: "(ucast (drop_bit 16 (of_nat n :: 32 word)) :: 8 word) = of_nat (n div 65536 mod 256)"
    using ucast_drop_bit_of_nat [of 16 n] by (simp add: t)
  have d: "(ucast (drop_bit 24 (of_nat n :: 32 word)) :: 8 word) = of_nat (n div 16777216 mod 256)"
    using ucast_drop_bit_of_nat [of 24 n] by (simp add: t)
  show ?thesis
    by (simp add: LittleEndian_PutUint32_def make_bytes_def a b c d)
qed

lemma sint_len:
  assumes "length b < 2 ^ (LENGTH('w::len) - 1)"
  shows "sint (len b :: 'w word) = int (length b)"
  unfolding len_def using assms by (rule sint_of_nat_small)

lemma ucast_len:
  assumes "32 \<le> LENGTH('w::len)"
  shows "(ucast (len b :: 'w word) :: 32 word) = of_nat (length b)"
  unfolding len_def using assms by (rule ucast_of_nat_32)

lemma Write_healthy:
  "wfaults w = [] \<Longrightarrow> Write w p = (w\<lparr>wrote := wrote w @ p, wcalls := Suc (wcalls w)\<rparr>, None)"
  by (simp add: Write_def)

lemma writeMsg_within_limit:
  fixes cfg :: "('w::len) Config"
  assumes W: "32 \<le> LENGTH('w)"
    and L32: "length x < 2 ^ 32"
    and LW: "length x < 2 ^ (LENGTH('w) - 1)"
    and ok: "sint (MaxMessageSize cfg) \<le> 0 \<or> int (length x) \<le> sint (MaxMessageSize cfg)"
    and H: "wfaults w = []"
  shows "writeMsg cfg isClosed w x =
     Some (w\<lparr>wrote := wrote w @ spec_frame x, wcalls := wcalls w + 2\<rparr>, False, None)"
proof -
  have s: "sint (len x :: 'w word) = int (length x)" by (rule sint_len [OF LW])
  have u: "(ucast (len x :: 'w word) :: 32 word) = of_nat (length x)" by (rule ucast_len [OF W])
  have nolimit: "\<not> (0 < sint (MaxMessageSize cfg) \<and> sint (MaxMessageSize cfg) < sint (len x :: 'w word))"
    using ok s by auto
  show ?thesis
    by (simp add: writeMsg_def nolimit u PutUint32_len [OF L32] Write_healthy H spec_frame_def
        del: of_nat_mod of_nat_div)
qed

lemma sint_ucast_32:
  fixes ln :: "32 word"
  assumes W: "32 \<le> LENGTH('w::len)" and "uint ln < 2 ^ (LENGTH('w) - 1)"
  shows "sint (ucast ln :: 'w word) = uint ln"
  using sint_eq_uint_small [of "ucast ln :: 'w word"] assms
  by (simp add: uint_ucast_32)

lemma ReadFull_prefix:
  "avail r = h @ rest \<Longrightarrow> ReadFull r (length h) = (r\<lparr>avail := rest\<rparr>, Inr h)"
  by (simp add: ReadFull_def)

lemma Uint32_spec_head:
  assumes "n < 2 ^ 32"
  shows "LittleEndian_Uint32 ([of_nat (n mod 256), of_nat (n div 256 mod 256),
      of_nat (n div 65536 mod 256), of_nat (n div 16777216 mod 256)] @ rest) = Some (of_nat n)"
  using PutUint32_len [OF assms] LittleEndian_head_roundtrip by blast

lemma ReadLoop_body_within_limit:
  fixes cfg :: "('w::len) Config"
  assumes W: "32 \<le> LENGTH('w)"
    and L32: "length x < 2 ^ 32"
    and LW: "length x < 2 ^ (LENGTH('w) - 1)"
    and ok: "sint (MaxMessageSize cfg) \<le> 0 \<or> int (length x) \<le> sint (MaxMessageSize cfg)"
  shows "ReadLoop_body cfg isClosed False \<lparr>avail = spec_frame x @ rest, rfault = e\<rparr> =
     (\<lparr>avail = rest, rfault = e\<rparr>, ReadEnqueued x)"
proof -
  let ?h = "[of_nat (length x mod 256), of_nat (length x div 256 mod 256),
      of_nat (length x div 65536 mod 256), of_nat (length x div 16777216 mod 256)] :: byte list"
  let ?r = "\<lparr>avail = spec_frame x @ rest, rfault = e\<rparr>"
  have av: "avail ?r = ?h @ (x @ rest)" by (simp add: spec_frame_def)
  have r1: "ReadFull ?r 4 = (\<lparr>avail = x @ rest, rfault = e\<rparr>, Inr ?h)"
    by (simp add: ReadFull_def spec_frame_def del: of_nat_mod of_nat_div)
  have hd: "LittleEndian_Uint32 ?h = Some (of_nat (length x))"
    using Uint32_spec_head [OF L32, of "[]"] by simp
  have ui: "uint (of_nat (length x) :: 32 word) = int (length x)"
    using L32 by (simp add: uint_of_nat_small)
  have lt: "uint (of_nat (length x) :: 32 word) < 2 ^ (LENGTH('w) - 1)"
    using LW ui by (metis of_nat_less_iff of_nat_numeral of_nat_power)
  have sl: "sint (ucast (of_nat (length x) :: 32 word) :: 'w word) = int (length x)"
    using sint_ucast_32 [OF W lt] ui by simp
  have r2: "ReadFull \<lparr>avail = x @ rest, rfault = e\<rparr> (length x) = (\<lparr>avail = rest, rfault = e\<rparr>, Inr x)"
    using ReadFull_prefix [of "\<lparr>avail = x @ rest, rfault = e\<rparr>" x rest] by simp
  show ?thesis
    unfolding ReadLoop_body_def r1 using ok
    by (auto simp: hd sl r2 Let_def simp del: of_nat_mod of_nat_div LittleEndian_Uint32.simps)
qed

lemma len_eq_limit:
  fixes M :: "'w::len word"
  assumes "0 < sint M" and "length body = nat (sint M)"
  shows "sint (len body :: 'w word) = sint M"
proof -
  have "length body < 2 ^ (LENGTH('w) - 1)"
  proof -
    have "int (length body) = sint M" using assms by simp
    moreover have "sint M < 2 ^ (LENGTH('w) - 1)" by (rule sint_lt)
    ultimately have "int (length body) < 2 ^ (LENGTH('w) - 1)" by simp
    then show ?thesis by (metis of_nat_less_iff of_nat_numeral of_nat_power)
  qed
  then have "sint (len body :: 'w word) = int (length body)" by (rule sint_len)
  with assms show ?thesis by simp
qed

lemma writeMsg_at_limit:
  fixes cfg :: "('w::len) Config"
  assumes M: "0 < sint (MaxMessageSize cfg)"
    and L: "length body = nat (sint (MaxMessageSize cfg))"
    and H: "wfaults w = []"
  shows "\<exists>h. length h = 4 \<and> writeMsg cfg isClosed w body =
     Some (w\<lparr>wrote := wrote w @ h @ body, wcalls := wcalls w + 2\<rparr>, False, None)"
proof -
  have s: "sint (len body :: 'w word) = sint (MaxMessageSize cfg)"
    by (rule len_eq_limit [OF M L])
  obtain h where h: "LittleEndian_PutUint32 (make_bytes 4) (ucast (len body :: 'w word)) = Some h"
    and lh: "length h = 4"
    using LittleEndian_PutUint32_make by blast
  have "writeMsg cfg isClosed w body =
     Some (w\<lparr>wrote := wrote w @ h @ body, wcalls := wcalls w + 2\<rparr>, False, None)"
    by (simp add: writeMsg_def s h Write_healthy H)
  with lh show ?thesis by blast
qed

lemma writeMsg_over_limit:
  fixes cfg :: "('w::len) Config"
  assumes M: "0 < sint (MaxMessageSize cfg)"
    and L: "sint (MaxMessageSize cfg) < int (length body)"
    and LW: "length body < 2 ^ (LENGTH('w) - 1)"
  shows "writeMsg cfg isClosed w body = Some (w, True, None)"
  using M L by (simp add: writeMsg_def sint_len [OF LW])

lemma ReadLoop_body_head:
  fixes cfg :: "('w::len) Config"
  assumes h: "LittleEndian_PutUint32 (make_bytes 4) ln = Some h"
  shows "ReadLoop_body cfg isClosed sel \<lparr>avail = h @ rest, rfault = e\<rparr> =
     (let l = (ucast ln :: 'w word) in
      if sint l < 0 then (\<lparr>avail = rest, rfault = e\<rparr>, ReadReturn NegativeLength)
      else if 0 < sint (MaxMessageSize cfg) \<and> sint (MaxMessageSize cfg) < sint l
      then (\<lparr>avail = rest, rfault = e\<rparr>, ReadReturn ExceedsMaxSize)
      else
        (case ReadFull \<lparr>avail = rest, rfault = e\<rparr> (nat (sint l)) of
           (r2, Inl er) \<Rightarrow> (r2, if isClosed then ReadReturn ReadShutdown else ReadRedial er)
         | (r2, Inr body) \<Rightarrow> (r2, if sel then ReadReturn ReadShutdown else ReadEnqueued body)))"
proof -
  have lh: "length h = 4"
    using h by (auto simp: LittleEndian_PutUint32_def make_bytes_def)
  have r1: "ReadFull \<lparr>avail = h @ rest, rfault = e\<rparr> 4 = (\<lparr>avail = rest, rfault = e\<rparr>, Inr h)"
    using ReadFull_prefix [of "\<lparr>avail = h @ rest, rfault = e\<rparr>" h rest] lh by simp
  have d: "LittleEndian_Uint32 h = Some ln"
    using LittleEndian_head_roundtrip [OF h, of "[]"] by simp
  show ?thesis
    unfolding ReadLoop_body_def r1 by (simp add: d)
qed

lemma ReadLoop_body_at_limit:
  fixes cfg :: "('w::len) Config"
  assumes M: "0 < sint (MaxMessageSize cfg)" and W: "32 \<le> LENGTH('w)"
    and ln: "uint ln = sint (MaxMessageSize cfg)"
    and h: "LittleEndian_PutUint32 (make_bytes 4) ln = Some h"
    and L: "length body = nat (sint (MaxMessageSize cfg))"
  shows "ReadLoop_body cfg isClosed False \<lparr>avail = h @ body @ rest, rfault = e\<rparr> =
     (\<lparr>avail = rest, rfault = e\<rparr>, ReadEnqueued body)"
proof -
  have "uint ln < 2 ^ (LENGTH('w) - 1)"
    using ln sint_lt [of "MaxMessageSize cfg"] by simp
  then have s: "sint (ucast ln :: 'w word) = sint (MaxMessageSize cfg)"
    using sint_ucast_32 [OF W] ln by simp
  have r2: "ReadFull \<lparr>avail = body @ rest, rfault = e\<rparr> (nat (sint (MaxMessageSize cfg))) =
      (\<lparr>avail = rest, rfault = e\<rparr>, Inr body)"
    using ReadFull_prefix [of "\<lparr>avail = body @ rest, rfault = e\<rparr>" body rest] L by simp
  show ?thesis
    using M by (simp add: ReadLoop_body_head [OF h] s r2 Let_def)
qed

lemma ReadLoop_body_over_limit:
  fixes cfg :: "('w::len) Config"
  assumes M: "0 < sint (MaxMessageSize cfg)" and W: "32 \<le> LENGTH('w)"
    and ln: "uint ln = sint (MaxMessageSize cfg) + 1"
    and h: "LittleEndian_PutUint32 (make_bytes 4) ln = Some h"
  shows "snd (ReadLoop_body cfg isClosed sel \<lparr>avail = h @ rest, rfault = e\<rparr>)
     \<in> {ReadReturn ExceedsMaxSize, ReadReturn NegativeLength}"
proof (cases "uint ln < 2 ^ (LENGTH('w) - 1)")
  case True
  then have s: "sint (ucast ln :: 'w word) = sint (MaxMessageSize cfg) + 1"
    using sint_ucast_32 [OF W] ln by simp
  show ?thesis
    using M by (simp add: ReadLoop_body_head [OF h] s Let_def)
next
  case False
  then have "2 ^ (LENGTH('w) - 1) \<le> uint (ucast ln :: 'w word)"
    by (simp add: uint_ucast_32 [OF W])
  then have "sint (ucast ln :: 'w word) < 0"
    by (rule sint_negative_big)
  then show ?thesis
    by (simp add: ReadLoop_body_head [OF h] Let_def)
qed

lemma ReadLoop_body_negative:
  fixes cfg :: "('w::len) Config"
  assumes n: "sint (ucast ln :: 'w word) < 0"
    and h: "LittleEndian_PutUint32 (make_bytes 4) ln = Some h"
  shows "snd (ReadLoop_body cfg isClosed sel \<lparr>avail = h @ rest, rfault = e\<rparr>)
     = ReadReturn NegativeLength"
  using n by (simp add: ReadLoop_body_head [OF h] Let_def)

lemma length_payload_4GiB: "length payload_4GiB = 4294967296"
  by (simp add: payload_4GiB_def)

text \<open>
  Claim C4, as amended.  Let the host \<open>int\<close> have at least 32 bits and let \<open>x\<close>
  be a payload shorter than \<open>2 ^ 32\<close> bytes (and of a length a slice can have on
  the host) that the size limit admits: \<open>MaxMessageSize = 0\<close>, or the length is at
  most \<open>MaxMessageSize\<close>.  Then \<open>writeMsg\<close> on a writer that does not fail emits
  exactly the frame of \<open>x\<close> (its length as four little-endian bytes, then \<open>x\<close>) and
  does not terminate, and one iteration of the read loop on a stream that starts
  with this frame consumes the frame and enqueues exactly \<open>x\<close>.
\<close>

theorem frame_roundtrip:
  fixes cfg :: "('w::len) Config"
  assumes W: "32 \<le> LENGTH('w)"
    and L32: "length x < 2 ^ 32"
    and LW: "length x < 2 ^ (LENGTH('w) - 1)"
    and ok: "MaxMessageSize cfg = 0 \<or> int (length x) \<le> sint (MaxMessageSize cfg)"
    and H: "wfaults w = []"
  shows "writeMsg cfg isClosed w x =
           Some (w\<lparr>wrote := wrote w @ spec_frame x, wcalls := wcalls w + 2\<rparr>, False, None)
       \<and> ReadLoop_body cfg isClosed' False \<lparr>avail = spec_frame x @ rest, rfault = e\<rparr> =
           (\<lparr>avail = rest, rfault = e\<rparr>, ReadEnqueued x)"
proof -
  have ok': "sint (MaxMessageSize cfg) \<le> 0 \<or> int (length x) \<le> sint (MaxMessageSize cfg)"
    using ok by auto
  show ?thesis
    using writeMsg_within_limit [OF W L32 LW ok' H] ReadLoop_body_within_limit [OF W L32 LW ok']
    by simp
qed

theorem frame_roundtrip_witness:
  "(32::nat) \<le> LENGTH(32) \<and> length [1, 2, 3 :: byte] < 2 ^ 32
   \<and> length [1, 2, 3 :: byte] < 2 ^ (LENGTH(32) - 1)
   \<and> (MaxMessageSize cfg16 = 0 \<or> int (length [1, 2, 3 :: byte]) \<le> sint (MaxMessageSize cfg16))
   \<and> wfaults w0 = []
   \<and> spec_frame [1, 2, 3] = [3, 0, 0, 0, 1, 2, 3]
   \<and> writeMsg cfg16 False w0 [1, 2, 3] =
        Some (\<lparr>wrote = [3, 0, 0, 0, 1, 2, 3], wcalls = 2, wfaults = []\<rparr>, False, None)
   \<and> ReadLoop_body cfg16 False False \<lparr>avail = [3, 0, 0, 0, 1, 2, 3, 9], rfault = io_EOF\<rparr> =
        (\<lparr>avail = [9], rfault = io_EOF\<rparr>, ReadEnqueued [1, 2, 3])"
  using frame_roundtrip [where cfg = cfg16 and x = "[1, 2, 3]" and w = w0 and isClosed = False
      and isClosed' = False and rest = "[9]" and e = io_EOF]
  by (simp add: cfg16_def w0_def spec_frame_def)

text \<open>
  The claim as stated allows any length when \<open>MaxMessageSize = 0\<close>.  On a 64-bit
  host, a payload of \<open>2 ^ 32\<close> bytes is written with the length field
  \<open>uint32(len(body)) = 0\<close>, and what the reader decodes from these bytes is the empty
  payload.
\<close>

theorem frame_roundtrip_counterexample:
  "MaxMessageSize cfg_unbounded = 0
   \<and> writeMsg cfg_unbounded False w0 payload_4GiB =
        Some (\<lparr>wrote = [0, 0, 0, 0] @ payload_4GiB, wcalls = 2, wfaults = []\<rparr>, False, None)
   \<and> ReadLoop_body cfg_unbounded False False \<lparr>avail = [0, 0, 0, 0] @ payload_4GiB, rfault = io_EOF\<rparr> =
        (\<lparr>avail = payload_4GiB, rfault = io_EOF\<rparr>, ReadEnqueued [])
   \<and> payload_4GiB \<noteq> []"
proof -
  have l: "(len payload_4GiB :: 64 word) = 4294967296"
    by (simp add: len_def length_payload_4GiB)
  have ne: "payload_4GiB \<noteq> []"
    using length_payload_4GiB by auto
  have w: "writeMsg cfg_unbounded False w0 payload_4GiB =
        Some (\<lparr>wrote = [0, 0, 0, 0] @ payload_4GiB, wcalls = 2, wfaults = []\<rparr>, False, None)"
    by (simp add: writeMsg_def cfg_unbounded_def l LittleEndian_PutUint32_def make_bytes_def
        Write_def w0_def)
  have r: "ReadLoop_body cfg_unbounded False False \<lparr>avail = [0, 0, 0, 0] @ payload_4GiB, rfault = io_EOF\<rparr> =
        (\<lparr>avail = payload_4GiB, rfault = io_EOF\<rparr>, ReadEnqueued [])"
    by (simp add: ReadLoop_body_def ReadFull_def cfg_unbounded_def)
  show ?thesis
    using w r ne by (simp add: cfg_unbounded_def)
qed

text \<open>
  Claim C5.  Let \<open>MaxMessageSize = M > 0\<close> on a host whose \<open>int\<close> has at least 32
  bits.  A payload of exactly \<open>M\<close> bytes is accepted by \<open>writeMsg\<close> (on a writer
  that does not fail it writes a four-byte head and the payload and does not
  terminate) and by the read loop (a head announcing \<open>M\<close> followed by \<open>M\<close> bytes is
  enqueued).  A payload of \<open>M + 1\<close> bytes makes \<open>writeMsg\<close> return
  \<open>terminate = true\<close>, and a head announcing \<open>M + 1\<close> makes the read loop return,
  whatever \<open>isClosed\<close> answers: it does not redial.  A head whose length is negative
  as a host \<open>int\<close> makes the read loop return as well.
\<close>

theorem MaxMessageSize_boundary:
  fixes cfg :: "('w::len) Config"
  assumes M: "0 < sint (MaxMessageSize cfg)" and W: "32 \<le> LENGTH('w)"
  shows
    "(length body = nat (sint (MaxMessageSize cfg)) \<and> wfaults w = [] \<longrightarrow>
        (\<exists>h. length h = 4 \<and> writeMsg cfg isClosed w body =
           Some (w\<lparr>wrote := wrote w @ h @ body, wcalls := wcalls w + 2\<rparr>, False, None)))
     \<and> (length body' = Suc (nat (sint (MaxMessageSize cfg))) \<and> length body' < 2 ^ (LENGTH('w) - 1) \<longrightarrow>
        writeMsg cfg isClosed w body' = Some (w, True, None))
     \<and> (uint ln = sint (MaxMessageSize cfg) \<and> LittleEndian_PutUint32 (make_bytes 4) ln = Some h
          \<and> length body = nat (sint (MaxMessageSize cfg)) \<longrightarrow>
        ReadLoop_body cfg isClosed False \<lparr>avail = h @ body @ rest, rfault = e\<rparr> =
          (\<lparr>avail = rest, rfault = e\<rparr>, ReadEnqueued body))
     \<and> (uint ln' = sint (MaxMessageSize cfg) + 1 \<and> LittleEndian_PutUint32 (make_bytes 4) ln' = Some h' \<longrightarrow>
        snd (ReadLoop_body cfg isClosed sel \<lparr>avail = h' @ rest, rfault = e\<rparr>)
          \<in> {ReadReturn ExceedsMaxSize, ReadReturn NegativeLength})
     \<and> (sint (ucast ln'' :: 'w word) < 0 \<and> LittleEndian_PutUint32 (make_bytes 4) ln'' = Some h'' \<longrightarrow>
        snd (ReadLoop_body cfg isClosed sel \<lparr>avail = h'' @ rest, rfault = e\<rparr>)
          = ReadReturn NegativeLength)"
proof (intro conjI impI)
  assume "length body = nat (sint (MaxMessageSize cfg)) \<and> wfaults w = []"
  then show "\<exists>h. length h = 4 \<and> writeMsg cfg isClosed w body =
           Some (w\<lparr>wrote := wrote w @ h @ body, wcalls := wcalls w + 2\<rparr>, False, None)"
    using writeMsg_at_limit [OF M] by blast
next
  assume a: "length body' = Suc (nat (sint (MaxMessageSize cfg))) \<and> length body' < 2 ^ (LENGTH('w) - 1)"
  then have "sint (MaxMessageSize cfg) < int (length body')" using M by simp
  then show "writeMsg cfg isClosed w body' = Some (w, True, None)"
    using writeMsg_over_limit [OF M] a by blast
next
  assume "uint ln = sint (MaxMessageSize cfg) \<and> LittleEndian_PutUint32 (make_bytes 4) ln = Some h
          \<and> length body = nat (sint (MaxMessageSize cfg))"
  then show "ReadLoop_body cfg isClosed False \<lparr>avail = h @ body @ rest, rfault = e\<rparr> =
          (\<lparr>avail = rest, rfault = e\<rparr>, ReadEnqueued body)"
    using ReadLoop_body_at_limit [OF M W] by blast
next
  assume "uint ln' = sint (MaxMessageSize cfg) + 1 \<and> LittleEndian_PutUint32 (make_bytes 4) ln' = Some h'"
  then show "snd (ReadLoop_body cfg isClosed sel \<lparr>avail = h' @ rest, rfault = e\<rparr>)
          \<in> {ReadReturn ExceedsMaxSize, ReadReturn NegativeLength}"
    using ReadLoop_body_over_limit [OF M W] by blast
next
  assume "sint (ucast ln'' :: 'w word) < 0 \<and> LittleEndian_PutUint32 (make_bytes 4) ln'' = Some h''"
  then show "snd (ReadLoop_body cfg isClosed sel \<lparr>avail = h'' @ rest, rfault = e\<rparr>)
          = ReadReturn NegativeLength"
    using ReadLoop_body_negative by blast
qed

theorem MaxMessageSize_boundary_witness:
  "0 < sint (MaxMessageSize cfg16) \<and> (32::nat) \<le> LENGTH(32)
   \<and> (\<exists>h. length h = 4 \<and> writeMsg cfg16 False w0 (replicate 16 7) =
           Some (w0\<lparr>wrote := wrote w0 @ h @ replicate 16 7, wcalls := wcalls w0 + 2\<rparr>, False, None))
   \<and> writeMsg cfg16 False w0 (replicate 17 7) = Some (w0, True, None)
   \<and> ReadLoop_body cfg16 False False \<lparr>avail = [16, 0, 0, 0] @ replicate 16 7 @ [9], rfault = io_EOF\<rparr> =
          (\<lparr>avail = [9], rfault = io_EOF\<rparr>, ReadEnqueued (replicate 16 7))
   \<and> snd (ReadLoop_body cfg16 False False \<lparr>avail = [17, 0, 0, 0] @ [9], rfault = io_EOF\<rparr>)
          \<in> {ReadReturn ExceedsMaxSize, ReadReturn NegativeLength}
   \<and> snd (ReadLoop_body cfg16 False False \<lparr>avail = [0, 0, 0, 0x80] @ [9], rfault = io_EOF\<rparr>)
          = ReadReturn NegativeLength"
  using MaxMessageSize_boundary [where cfg = cfg16 and body = "replicate 16 7" and w = w0
      and body' = "replicate 17 7" and ln = 16 and h = "[16, 0, 0, 0]" and ln' = 17
      and h' = "[17, 0, 0, 0]" and ln'' = "0x80000000" and h'' = "[0, 0, 0, 0x80]"
      and isClosed = False and sel = False and rest = "[9]" and e = io_EOF]
  by (simp add: cfg16_def w0_def LittleEndian_PutUint32_def make_bytes_def)

text \<open>
  Claim C9.  When \<open>MaxMessageSize > 0\<close> and the payload is longer, \<open>writeMsg\<close>
  returns \<open>terminate = true\<close> and \<open>err = nil\<close> with the writer exactly as it was:
  no \<open>Write\<close> call has been made, no byte of head or body emitted.
\<close>

theorem writeMsg_oversize_writes_nothing:
  fixes cfg :: "('w::len) Config"
  assumes "0 < sint (MaxMessageSize cfg)"
    and "sint (MaxMessageSize cfg) < int (length body)"
    and "length body < 2 ^ (LENGTH('w) - 1)"
  shows "writeMsg cfg isClosed w body = Some (w, True, None)"
  using assms by (rule writeMsg_over_limit)

theorem writeMsg_oversize_writes_nothing_witness:
  "0 < sint (MaxMessageSize cfg16) \<and> sint (MaxMessageSize cfg16) < int (length (replicate 17 (7::byte)))
   \<and> length (replicate 17 (7::byte)) < 2 ^ (LENGTH(32) - 1)
   \<and> writeMsg cfg16 True \<lparr>wrote = [1], wcalls = 1, wfaults = [None]\<rparr> (replicate 17 7)
       = Some (\<lparr>wrote = [1], wcalls = 1, wfaults = [None]\<rparr>, True, None)"
  using writeMsg_oversize_writes_nothing [where cfg = cfg16 and body = "replicate 17 7"
      and isClosed = True and w = "\<lparr>wrote = [1], wcalls = 1, wfaults = [None]\<rparr>"]
  by (simp add: cfg16_def)

section \<open>Closing a connection\<close>

lemma Close_closeo: "closeo (cn (Close w))"
  by (simp add: Close_def Let_def closeConnection_def Pool_delete_def split: option.split)

lemma Close_Close: "Close (Close w) = Close w"
  using Close_closeo [of w] by (simp add: Close_def [of "Close w"])

lemma Close_funpow: "(Close ^^ Suc n) w = Close w"
  by (induction n) (simp_all add: Close_Close)

lemma Close_effects:
  "\<not> closeo (cn w) \<Longrightarrow> effects (Close w) =
     effects w @ [CloseChan] @ (case conn (cn w) of None \<Rightarrow> [] | Some s \<Rightarrow> [NetConnClose s])
       @ [PoolDelete (address (cn w))]
       @ (if OnCloseConnection (conf w) then [CallOnCloseConnection (address (cn w))] else [])"
  by (simp add: Close_def Let_def closeConnection_def Pool_delete_def split: option.split)

lemma Close_fields:
  "\<not> closeo (cn w) \<Longrightarrow> closed (cn (Close w)) \<and> address (cn w) \<notin> conns (Close w)
     \<and> conn (cn (Close w)) = conn (cn w) \<and> conf (Close w) = conf w"
  by (simp add: Close_def Let_def closeConnection_def Pool_delete_def split: option.split)

lemma Close_State:
  "State (Close w) =
     (if closeo (cn w) \<or> conn (cn w) = None then State w else ConnStateClosed)"
  by (auto simp: Close_def Let_def closeConnection_def Pool_delete_def State_def split: option.split)

lemma redial_op_filter_Close:
  "filter redial_op (effects (Close w)) = filter redial_op (effects w)"
  by (simp add: Close_def Let_def closeConnection_def Pool_delete_def redial_op_def
      split: option.split)

lemma Close_attempts [simp]:
  "dial_attempts (effects (Close w)) = dial_attempts (effects w)"
  by (simp add: Close_def Let_def closeConnection_def Pool_delete_def dial_attempts_def
      split: option.split)

text \<open>
  Claim C1, at an outgoing connection that is closed before a dial has succeeded.
  \<open>createConnection\<close> leaves the connection in state \<open>Dialing\<close> with no byte
  stream.  \<open>Close()\<close> then closes the channel and removes the address from the
  registry, but \<open>closeConnection\<close> assigns \<open>ConnStateClosed\<close> only inside
  \<open>if c.conn != nil\<close>: the state after \<open>Close()\<close> is still \<open>Dialing\<close>.  So it
  is in the run of the dial activity with \<open>DialsLimit = 2\<close> at an address that
  refuses: two attempts, then the activity returns and its deferred \<open>Close()\<close>
  fires \<open>OnCloseConnection\<close>, and the state is \<open>Dialing\<close>.
\<close>

theorem Close_leaves_Dialing:
  "State (createConnection cfg registry a sent) = ConnStateDialing
   \<and> conn (cn (createConnection cfg registry a sent)) = None
   \<and> State (Close (createConnection cfg registry a sent)) = ConnStateDialing
   \<and> closed (cn (Close (createConnection cfg registry a sent)))
   \<and> a \<notin> conns (Close (createConnection cfg registry a sent))
   \<and> (\<exists>st. dial world_limit2 (DialsLimit (conf world_limit2))
              [Trigger None, DialFailed refused False, DialFailed refused False]
            = Returned LimitExceeded st
          \<and> effects (wld st) =
              [SendDialtr None, CallDialing, After 100000000, CallDialing, After 200000000,
               CloseChan, PoolDelete ''peer'', CallOnCloseConnection ''peer'']
          \<and> closed (cn (wld st))
          \<and> State (wld st) = ConnStateDialing)"
proof -
  have g: "State (createConnection cfg registry a sent) = ConnStateDialing
   \<and> conn (cn (createConnection cfg registry a sent)) = None
   \<and> State (Close (createConnection cfg registry a sent)) = ConnStateDialing
   \<and> closed (cn (Close (createConnection cfg registry a sent)))
   \<and> a \<notin> conns (Close (createConnection cfg registry a sent))"
    by (simp add: createConnection_def triggerDialing_def Close_def Let_def closeConnection_def
        Pool_delete_def State_def)
  have s: "\<exists>st. dial world_limit2 (DialsLimit (conf world_limit2))
              [Trigger None, DialFailed refused False, DialFailed refused False]
            = Returned LimitExceeded st
          \<and> effects (wld st) =
              [SendDialtr None, CallDialing, After 100000000, CallDialing, After 200000000,
               CloseChan, PoolDelete ''peer'', CallOnCloseConnection ''peer'']
          \<and> closed (cn (wld st))
          \<and> State (wld st) = ConnStateDialing"
    by (simp add: world_limit2_def cfg_limit2_def createConnection_def triggerDialing_def
        dial_def DialLoop_enter_def Let_def add_effect_def dial_failed_def redial_backoff_def
        Close_def closeConnection_def Pool_delete_def State_def)
  from g s show ?thesis by blast
qed

text \<open>
  Claim C8.  Calling \<open>Close()\<close> once more, any number of times, changes nothing:
  \<open>n + 1\<close> calls leave the connection, the registry and the list of effects as one
  call does.  On a connection that had not been closed, these calls together
  close the channel \<open>c.closed\<close> once, close the byte stream once if there is one,
  remove the address from the registry once, and call \<open>OnCloseConnection\<close> once
  if it is configured; afterwards the channel is closed and the address is not in
  the registry.
\<close>

theorem Close_idempotent:
  "(Close ^^ Suc n) w = Close w
   \<and> (\<not> closeo (cn w) \<longrightarrow>
        effects ((Close ^^ Suc n) w) =
          effects w @ [CloseChan]
            @ (case conn (cn w) of None \<Rightarrow> [] | Some s \<Rightarrow> [NetConnClose s])
            @ [PoolDelete (address (cn w))]
            @ (if OnCloseConnection (conf w) then [CallOnCloseConnection (address (cn w))] else [])
        \<and> closed (cn ((Close ^^ Suc n) w))
        \<and> address (cn w) \<notin> conns ((Close ^^ Suc n) w))"
  using Close_effects [of w] Close_fields [of w] by (simp only: Close_funpow) simp

theorem Close_idempotent_witness:
  "(Close ^^ Suc (Suc (Suc 0))) world_incoming = Close world_incoming
   \<and> \<not> closeo (cn world_incoming)
   \<and> effects ((Close ^^ Suc (Suc (Suc 0))) world_incoming) =
        [SendDialrl 7, SendDialwl 7, CloseChan, NetConnClose 7, PoolDelete ''peer'',
         CallOnCloseConnection ''peer'']
   \<and> closed (cn ((Close ^^ Suc (Suc (Suc 0))) world_incoming))
   \<and> ''peer'' \<notin> conns ((Close ^^ Suc (Suc (Suc 0))) world_incoming)"
proof -
  have c: "\<not> closeo (cn world_incoming)"
    by (simp add: world_incoming_def)
  have e: "effects world_incoming @ [CloseChan]
            @ (case conn (cn world_incoming) of None \<Rightarrow> [] | Some s \<Rightarrow> [NetConnClose s])
            @ [PoolDelete ''peer'']
            @ (if OnCloseConnection (conf world_incoming)
               then [CallOnCloseConnection ''peer''] else []) =
        [SendDialrl 7, SendDialwl 7, CloseChan, NetConnClose 7, PoolDelete ''peer'',
         CallOnCloseConnection ''peer'']"
    by (simp add: world_incoming_def cfg_incoming_def)
  have a: "address (cn world_incoming) = ''peer''"
    by (simp add: world_incoming_def)
  have t: "(Close ^^ Suc (Suc (Suc 0))) world_incoming = Close world_incoming
     \<and> effects ((Close ^^ Suc (Suc (Suc 0))) world_incoming) =
          effects world_incoming @ [CloseChan]
            @ (case conn (cn world_incoming) of None \<Rightarrow> [] | Some s \<Rightarrow> [NetConnClose s])
            @ [PoolDelete (address (cn world_incoming))]
            @ (if OnCloseConnection (conf world_incoming)
               then [CallOnCloseConnection (address (cn world_incoming))] else [])
     \<and> closed (cn ((Close ^^ Suc (Suc (Suc 0))) world_incoming))
     \<and> address (cn world_incoming) \<notin> conns ((Close ^^ Suc (Suc (Suc 0))) world_incoming)"
    using Close_idempotent [of "Suc (Suc 0)" world_incoming] c by blast
  show ?thesis
    using t [unfolded a, unfolded e] c by blast
qed

section \<open>Faults on an incoming connection\<close>

text \<open>
  Once \<open>c.closed\<close> is closed no read calls for a redial: \<open>read()\<close> returns at
  the stream it is handed.
\<close>

lemma ReadLoop_body_closed_no_redial:
  "snd (ReadLoop_body cfg True sc r) \<noteq> ReadRedial e"
  by (auto simp: ReadLoop_body_def Let_def split: prod.splits sum.splits option.splits)

lemma ReadLoop_closed_aux:
  "ic \<Longrightarrow> \<exists>x. fst (ReadLoop cfg ic sl r) = EndReturn x"
proof (induction cfg ic sl r rule: ReadLoop.induct)
  case (1 cfg ic sl r)
  obtain r1 st where b: "ReadLoop_body cfg ic (sl = Some 0) r = (r1, st)"
    by (cases "ReadLoop_body cfg ic (sl = Some 0) r") auto
  show ?case
  proof (cases st)
    case (ReadReturn x)
    then show ?thesis using b by (subst ReadLoop.simps) simp
  next
    case (ReadRedial e)
    then show ?thesis
      using b "1.prems" ReadLoop_body_closed_no_redial [of cfg "sl = Some 0" r e] by simp
  next
    case (ReadEnqueued body)
    from "1.IH" [OF b [symmetric] ReadEnqueued "1.prems"]
    obtain x where "fst (ReadLoop cfg ic (map_option (\<lambda>n. n - 1) sl) r1) = EndReturn x"
      by blast
    then show ?thesis
      using b ReadEnqueued by (subst ReadLoop.simps) (auto split: prod.splits)
  qed
qed

lemma ReadLoop_closed:
  "\<exists>x. fst (ReadLoop cfg True sl r) = EndReturn x"
  by (rule ReadLoop_closed_aux) simp

lemma read_stream_closed:
  assumes "closed (cn w)"
  shows "\<exists>x d. read_stream w q s r ic sl sel = Inl (Exited x (w, q @ d))"
proof -
  obtain x where x: "fst (ReadLoop (conf w) True sl r) = EndReturn x"
    using ReadLoop_closed by blast
  then show ?thesis
    using assms by (cases "ReadLoop (conf w) True sl r") (auto simp: read_stream_def)
qed

lemma read_DialLoop_closed:
  assumes "closed (cn w)"
  shows "\<exists>x q'. read_DialLoop w q evs = Exited x (w, q')"
proof (cases evs)
  case Nil
  then show ?thesis using assms by simp
next
  case (Cons ev evs')
  show ?thesis
  proof (cases ev)
    case (RHandoff s r ic sl sel)
    from read_stream_closed [OF assms, of q s r ic sl sel]
    show ?thesis using Cons RHandoff by auto
  next
    case RShutdown
    then show ?thesis using Cons by simp
  qed
qed

text \<open>
  On an incoming connection both handlers are \<open>conn.Close()\<close> followed by
  \<open>Close()\<close>, and the world they leave is closed.
\<close>

lemma stream_closed_fields [simp]:
  "cn (stream_closed s w) = cn w"
  "conf (stream_closed s w) = conf w"
  "conns (stream_closed s w) = conns w"
  "filter redial_op (effects (stream_closed s w)) = filter redial_op (effects w)"
  by (simp_all add: stream_closed_def redial_op_def)

lemma Close_cn_fields [simp]:
  "incoming (cn (Close w)) = incoming (cn w)"
  "address (cn (Close w)) = address (cn w)"
  "conf (Close w) = conf w"
  by (simp_all add: Close_def Let_def closeConnection_def Pool_delete_def split: option.split)

lemma Close_open:
  "\<not> closeo (cn w) \<Longrightarrow> closed (cn (Close w)) \<and> address (cn w) \<notin> conns (Close w)"
  by (simp add: Close_def Let_def closeConnection_def Pool_delete_def split: option.split)

lemma triggerDialingRead_incoming:
  "incoming (cn w) \<Longrightarrow> triggerDialingRead e s sel w = Close (stream_closed s w)"
  by (simp add: triggerDialingRead_def Let_def stream_closed_def)

lemma triggerDialingWrite_incoming:
  "incoming (cn w) \<Longrightarrow> triggerDialingWrite e s sel w = Close (stream_closed s w)"
  by (simp add: triggerDialingWrite_def Let_def stream_closed_def)

lemma fault_world_closed:
  "\<not> closeo (cn w) \<Longrightarrow> closed (cn (Close (stream_closed s w)))
     \<and> closeo (cn (Close (stream_closed s w)))
     \<and> address (cn w) \<notin> conns (Close (stream_closed s w))"
  using Close_open [of "stream_closed s w"] Close_closeo [of "stream_closed s w"] by simp

lemma read_stream_cases:
  "read_stream w q s r ic sl sel =
     (case ReadLoop (conf w) (ic \<or> closed (cn w)) sl r of
        (EndReturn x, d) \<Rightarrow> Inl (Exited x (w, q @ d))
      | (EndRedial e, d) \<Rightarrow> Inr (triggerDialingRead e s sel w, q @ d))"
  by (simp add: read_stream_def)

lemma read_fault:
  fixes w :: "('w::len) world"
  assumes inc: "incoming (cn w)" and op: "\<not> closeo (cn w)"
    and f: "ReadLoop (conf w) (ic \<or> closed (cn w)) sl r = (EndRedial e, d)"
  shows "read w [RHandoff s r ic sl sel] = Exited ReadShutdown (Close (stream_closed s w), d)"
proof -
  have c: "closed (cn (Close (stream_closed s w)))"
    using fault_world_closed [OF op] by blast
  have "read_DialLoop w [] [RHandoff s r ic sl sel] =
      Exited ReadShutdown (Close (stream_closed s w), d)"
    using f c by (simp add: read_stream_def triggerDialingRead_incoming [OF inc])
  then show ?thesis
    by (simp add: read_def Close_Close)
qed

lemma ReadLoop_short_head:
  assumes "length (avail r) < 4"
  shows "ReadLoop cfg False sl r =
     (EndRedial (if avail r \<noteq> [] \<and> rfault r = io_EOF then io_ErrUnexpectedEOF else rfault r), [])"
  using assms by (subst ReadLoop.simps) (simp add: ReadLoop_body_def ReadFull_def)

lemma read_any_stream:
  fixes w :: "('w::len) world"
  assumes inc: "incoming (cn w)" and op: "\<not> closeo (cn w)"
  shows "\<exists>x q w'. read w (RHandoff s r ic sl sel # evs) = Exited x (w', q)
           \<and> closed (cn w') \<and> address (cn w) \<notin> conns w'"
proof (cases "ReadLoop (conf w) (ic \<or> closed (cn w)) sl r")
  case (Pair en d)
  show ?thesis
  proof (cases en)
    case (EndReturn x)
    then have "read w (RHandoff s r ic sl sel # evs) = Exited x (Close w, d)"
      using Pair by (simp add: read_def read_stream_def)
    then show ?thesis using Close_open [OF op] by blast
  next
    case (EndRedial e)
    let ?w1 = "Close (stream_closed s w)"
    have c: "closed (cn ?w1)" and a: "address (cn w) \<notin> conns ?w1"
      using fault_world_closed [OF op] by blast+
    from read_DialLoop_closed [OF c, of "d" evs] obtain x q' where
      "read_DialLoop ?w1 d evs = Exited x (?w1, q')" by blast
    then have "read w (RHandoff s r ic sl sel # evs) = Exited x (?w1, q')"
      using Pair EndRedial
      by (simp add: read_def read_stream_def triggerDialingRead_incoming [OF inc] Close_Close)
    then show ?thesis using c a by blast
  qed
qed

lemma read_DialLoop_no_redial:
  fixes w :: "('w::len) world"
  assumes "incoming (cn w)"
  shows "filter redial_op (effects (fst (run_state (read_DialLoop w q evs))))
     = filter redial_op (effects w)"
  using assms
proof (induction evs arbitrary: w q)
  case Nil
  then show ?case by simp
next
  case (Cons ev evs)
  show ?case
  proof (cases ev)
    case RShutdown
    then show ?thesis by simp
  next
    case (RHandoff s r ic sl sel)
    obtain en d where p: "ReadLoop (conf w) (ic \<or> closed (cn w)) sl r = (en, d)"
      by (cases "ReadLoop (conf w) (ic \<or> closed (cn w)) sl r") auto
    show ?thesis
    proof (cases en)
      case (EndReturn x)
      then show ?thesis using RHandoff p by (simp add: read_stream_def)
    next
      case (EndRedial e)
      let ?w1 = "Close (stream_closed s w)"
      have i: "incoming (cn ?w1)" using Cons.prems by simp
      have "filter redial_op (effects (fst (run_state (read_DialLoop ?w1 (q @ d) evs))))
          = filter redial_op (effects ?w1)"
        by (rule Cons.IH [OF i])
      also have "\<dots> = filter redial_op (effects w)"
        by (simp add: redial_op_filter_Close)
      finally show ?thesis
        using RHandoff p EndRedial
        by (simp add: read_stream_def triggerDialingRead_incoming [OF Cons.prems])
    qed
  qed
qed

lemma read_no_redial:
  fixes w :: "('w::len) world"
  assumes "incoming (cn w)"
  shows "filter redial_op (effects (fst (run_state (read w evs)))) = filter redial_op (effects w)"
proof -
  have "filter redial_op (effects (fst (run_state (read w evs))))
      = filter redial_op (effects (fst (run_state (read_DialLoop w [] evs))))"
    by (cases "read_DialLoop w [] evs") (auto simp: read_def redial_op_filter_Close)
  then show ?thesis
    using read_DialLoop_no_redial [OF assms] by simp
qed

text \<open>
  The same for \<open>write()\<close>: what \<open>write_body\<close> and \<open>write_flush\<close> can answer, the
  world of a run that starts closed, and the worlds a run can end in.
\<close>

lemma writeMsg_closed_no_redial:
  "writeMsg cfg True wr body \<noteq> Some (w1, False, Some e)"
  by (simp add: writeMsg_def split: option.splits prod.splits)

lemma write_body_shape:
  "(\<exists>x ws'. write_body w ws st body = WriteExit (Exited x (w, ws')))
   \<or> (\<exists>e ws'. \<not> closed (cn w)
         \<and> write_body w ws st body
             = WriteRedial (triggerDialingWrite e (ws_conn st) (ws_sel st) w, ws'))
   \<or> (\<exists>st1. write_body w ws st body = WriteOn st1)"
proof (cases "closed (cn w)")
  case True
  then show ?thesis
    using writeMsg_closed_no_redial [of "conf w" "ws_w st" body]
    by (auto simp: write_body_def split: option.splits prod.splits)
next
  case False
  then show ?thesis
    by (auto simp: write_body_def split: option.splits prod.splits)
qed

lemma write_flush_shape:
  "(\<exists>x ws'. write_flush w ws st = WriteExit (Exited x (w, ws')))
   \<or> (\<exists>e ws'. \<not> closed (cn w)
         \<and> write_flush w ws st
             = WriteRedial (triggerDialingWrite e (ws_conn st) (ws_sel st) w, ws'))
   \<or> (\<exists>st1. write_flush w ws st = WriteOn st1)"
  by (auto simp: write_flush_def split: option.splits prod.splits)

lemma write_closed_world:
  fixes w :: "('w::len) world"
  shows "incoming (cn w) \<and> closed (cn w) \<Longrightarrow> fst (run_state (write_DialLoop w ws evs)) = w"
    and "incoming (cn w) \<and> closed (cn w) \<Longrightarrow> fst (run_state (WriteLoop w ws st evs)) = w"
    and "incoming (cn w) \<and> closed (cn w) \<Longrightarrow> fst (run_state (write_drain w ws st evs)) = w"
proof (induction w ws evs and w ws st evs and w ws st evs
    rule: write_DialLoop_WriteLoop_write_drain.induct)
  case (8 w ws st body evs)
  then show ?case
    using write_body_shape [of w ws st body] by auto
next
  case (13 w ws st)
  then show ?case
    using write_flush_shape [of w ws st] by auto
next
  case (14 w ws st body evs)
  then show ?case
    using write_body_shape [of w ws st body] by auto
next
  case (15 w ws st evs)
  then show ?case
    using write_flush_shape [of w ws st] by auto
qed simp_all

lemma write_fault_world:
  fixes w :: "('w::len) world"
  assumes inc: "incoming (cn w)" and op: "\<not> closeo (cn w)"
  shows "fst (run_state (write_DialLoop (triggerDialingWrite e s sel w) ws evs))
      = Close (stream_closed s w)"
  using write_closed_world(1) [of "Close (stream_closed s w)" ws evs]
    fault_world_closed [OF op, of s] inc
  by (simp add: triggerDialingWrite_incoming [OF inc])

lemma write_worlds:
  fixes w :: "('w::len) world"
  shows "incoming (cn w) \<and> \<not> closeo (cn w) \<Longrightarrow>
      fst (run_state (write_DialLoop w ws evs)) = w
      \<or> (\<exists>s. fst (run_state (write_DialLoop w ws evs)) = Close (stream_closed s w))"
    and "incoming (cn w) \<and> \<not> closeo (cn w) \<Longrightarrow>
      fst (run_state (WriteLoop w ws st evs)) = w
      \<or> (\<exists>s. fst (run_state (WriteLoop w ws st evs)) = Close (stream_closed s w))"
    and "incoming (cn w) \<and> \<not> closeo (cn w) \<Longrightarrow>
      fst (run_state (write_drain w ws st evs)) = w
      \<or> (\<exists>s. fst (run_state (write_drain w ws st evs)) = Close (stream_closed s w))"
proof (induction w ws evs and w ws st evs and w ws st evs
    rule: write_DialLoop_WriteLoop_write_drain.induct)
  case (8 w ws st body evs)
  then show ?case
    using write_body_shape [of w ws st body] write_fault_world [of w _ "ws_conn st" "ws_sel st" _ evs]
    by auto
next
  case (13 w ws st)
  then show ?case
    using write_flush_shape [of w ws st] write_fault_world [of w _ "ws_conn st" "ws_sel st" _ "[]"]
    by (auto simp: triggerDialingWrite_incoming)
next
  case (14 w ws st body evs)
  then show ?case
    using write_body_shape [of w ws st body] write_fault_world [of w _ "ws_conn st" "ws_sel st" _ evs]
    by auto
next
  case (15 w ws st evs)
  then show ?case
    using write_flush_shape [of w ws st] write_fault_world [of w _ "ws_conn st" "ws_sel st" _ evs]
    by auto
qed simp_all

lemma write_world_cases:
  fixes w :: "('w::len) world"
  assumes inc: "incoming (cn w)" and op: "\<not> closeo (cn w)"
  shows "fst (run_state (Conn_write w evs)) = w
       \<or> fst (run_state (Conn_write w evs)) = Close w
       \<or> (\<exists>s. fst (run_state (Conn_write w evs)) = Close (stream_closed s w))"
proof -
  from write_worlds(1) [of w "[]" evs] inc op
  have d: "fst (run_state (write_DialLoop w [] evs)) = w
      \<or> (\<exists>s. fst (run_state (write_DialLoop w [] evs)) = Close (stream_closed s w))"
    by blast
  show ?thesis
  proof (cases "write_DialLoop w [] evs")
    case (Exited x p)
    then show ?thesis using d by (cases p) (auto simp: Conn_write_def Close_Close)
  next
    case (Waiting p)
    then show ?thesis using d by (auto simp: Conn_write_def)
  next
    case (Unmet p)
    then show ?thesis using d by (auto simp: Conn_write_def)
  qed
qed

lemma write_no_redial:
  fixes w :: "('w::len) world"
  assumes inc: "incoming (cn w)" and op: "\<not> closeo (cn w)"
  shows "filter redial_op (effects (fst (run_state (Conn_write w evs)))) = filter redial_op (effects w)"
  using write_world_cases [OF inc op, of evs]
  by (auto simp: redial_op_filter_Close)

lemma write_fault_first:
  fixes w :: "('w::len) world"
  assumes inc: "incoming (cn w)" and op: "\<not> closeo (cn w)"
    and f: "writeMsg (conf w) (ws_isClosed st \<or> closed (cn w)) (ws_w st) body
              = Some (w1, t, Some e)"
  shows "Conn_write w [WHandoff st, WBody body] =
      (if t then Exited WriteTerminate (Close w, [w1])
       else Exited WriteShutdown (Close (stream_closed (ws_conn st) w), [w1]))"
  using f fault_world_closed [OF op, of "ws_conn st"]
  by (simp add: Conn_write_def write_body_def triggerDialingWrite_incoming [OF inc] Close_Close)

lemma write_fault_later:
  fixes w :: "('w::len) world"
  assumes inc: "incoming (cn w)" and op: "\<not> closeo (cn w)"
    and f1: "writeMsg (conf w) (ws_isClosed st \<or> closed (cn w)) (ws_w st) body
              = Some (w1, False, None)"
    and f2: "writeMsg (conf w) (ws_isClosed st \<or> closed (cn w)) w1 body2
              = Some (w2, t, Some e)"
  shows "Conn_write w [WHandoff st, WBody body, WBody body2] =
      (if t then Exited WriteTerminate (Close w, [w2])
       else Exited WriteShutdown (Close (stream_closed (ws_conn st) w), [w2]))"
  using f1 f2 fault_world_closed [OF op, of "ws_conn st"]
  by (simp add: Conn_write_def write_body_def triggerDialingWrite_incoming [OF inc] Close_Close)

lemma write_fault_flush:
  fixes w :: "('w::len) world"
  assumes inc: "incoming (cn w)" and op: "\<not> closeo (cn w)"
    and f1: "writeMsg (conf w) (ws_isClosed st \<or> closed (cn w)) (ws_w st) body
              = Some (w1, False, None)"
    and b: "ws_bw st"
    and f2: "Flush w1 = (w2, Some e)"
  shows "Conn_write w [WHandoff st, WBody body, WIdle] =
      Exited WriteShutdown
        (if ws_isClosed st \<or> closed (cn w) then Close w
         else Close (stream_closed (ws_conn st) w), [w2])"
  using f1 f2 b fault_world_closed [OF op, of "ws_conn st"]
  by (simp add: Conn_write_def write_body_def write_flush_def
      triggerDialingWrite_incoming [OF inc] Close_Close)

lemma read_world_cases:
  fixes w :: "('w::len) world"
  assumes inc: "incoming (cn w)" and op: "\<not> closeo (cn w)"
  shows "fst (run_state (read w evs)) = w
       \<or> fst (run_state (read w evs)) = Close w
       \<or> (\<exists>s. fst (run_state (read w evs)) = Close (stream_closed s w))"
proof (cases evs)
  case Nil
  then show ?thesis by (simp add: read_def)
next
  case (Cons ev evs')
  show ?thesis
  proof (cases ev)
    case RShutdown
    then show ?thesis using Cons by (simp add: read_def)
  next
    case (RHandoff s r ic sl sel)
    obtain en d where p: "ReadLoop (conf w) (ic \<or> closed (cn w)) sl r = (en, d)"
      by (cases "ReadLoop (conf w) (ic \<or> closed (cn w)) sl r") auto
    show ?thesis
    proof (cases en)
      case (EndReturn x)
      then show ?thesis using Cons RHandoff p by (simp add: read_def read_stream_def)
    next
      case (EndRedial e)
      let ?w1 = "Close (stream_closed s w)"
      have c: "closed (cn ?w1)"
        using fault_world_closed [OF op] by blast
      from read_DialLoop_closed [OF c, of "d" evs'] obtain x q' where
        "read_DialLoop ?w1 d evs' = Exited x (?w1, q')" by blast
      then have "read w evs = Exited x (?w1, q')"
        using Cons RHandoff p EndRedial
        by (simp add: read_def read_stream_def triggerDialingRead_incoming [OF inc] Close_Close)
      then show ?thesis by auto
    qed
  qed
qed

lemma writeMsg_first_call_fails:
  fixes cfg :: "('w::len) Config"
  assumes "wfaults wr = Some (n, e) # fs"
    and "\<not> (0 < sint (MaxMessageSize cfg) \<and> sint (MaxMessageSize cfg) < sint (len body :: 'w word))"
  shows "\<exists>wa. writeMsg cfg ic wr body = Some (wa, ic, Some e)"
  using assms
  by (simp add: writeMsg_def LittleEndian_PutUint32_def make_bytes_def Write_def)

lemma read_short_head:
  fixes w :: "('w::len) world"
  assumes inc: "incoming (cn w)" and op: "\<not> closeo (cn w)"
    and nc: "\<not> (ic \<or> closed (cn w))" and sh: "length (avail r) < 4"
  shows "read w [RHandoff s r ic sl sel] = Exited ReadShutdown (Close (stream_closed s w), [])"
proof -
  have "ReadLoop (conf w) (ic \<or> closed (cn w)) sl r =
     (EndRedial (if avail r \<noteq> [] \<and> rfault r = io_EOF then io_ErrUnexpectedEOF else rfault r), [])"
    using nc ReadLoop_short_head [OF sh, of "conf w" sl] by simp
  then show ?thesis
    by (rule read_fault [OF inc op])
qed

lemma write_first_call_fails:
  fixes w :: "('w::len) world"
  assumes inc: "incoming (cn w)" and op: "\<not> closeo (cn w)"
    and nc: "\<not> (ws_isClosed st \<or> closed (cn w))"
    and f: "wfaults (ws_w st) = Some (n, e) # fs"
    and sz: "\<not> (0 < sint (MaxMessageSize (conf w))
              \<and> sint (MaxMessageSize (conf w)) < sint (len body :: 'w word))"
  shows "\<exists>wa. Conn_write w [WHandoff st, WBody body]
      = Exited WriteShutdown (Close (stream_closed (ws_conn st) w), [wa])"
proof -
  from writeMsg_first_call_fails [OF f sz, of "ws_isClosed st \<or> closed (cn w)"]
  obtain wa where "writeMsg (conf w) (ws_isClosed st \<or> closed (cn w)) (ws_w st) body
      = Some (wa, ws_isClosed st \<or> closed (cn w), Some e)" by blast
  then have "writeMsg (conf w) (ws_isClosed st \<or> closed (cn w)) (ws_w st) body
      = Some (wa, False, Some e)" using nc by simp
  from write_fault_first [OF inc op this] show ?thesis by auto
qed

lemma ReadLoop_stream_short:
  "ReadLoop (conf world_incoming) (False \<or> closed (cn world_incoming)) None stream_short
     = (EndRedial io_ErrUnexpectedEOF, [[5]])"
  apply (subst ReadLoop.simps)
  apply (simp add: ReadLoop_body_def ReadFull_def world_incoming_def cfg_incoming_def
      stream_short_def)
  apply (subst ReadLoop.simps)
  apply (simp add: ReadLoop_body_def ReadFull_def world_incoming_def cfg_incoming_def
      stream_short_def)
  done

text \<open>
  Claim C6.  On an incoming connection whose \<open>Close()\<close> has not run yet:

  \<^item> \<open>triggerDialingRead\<close> and \<open>triggerDialingWrite\<close> close the stream of the
    fault and call \<open>Close()\<close>, whatever the channels would offer;
  \<^item> a read that fails while \<open>read()\<close> reads a stream, at the head or the body of
    any frame of it (so a stream that ends before its first head is complete, when
    \<open>c.isClosed()\<close> answers false), makes \<open>read()\<close> return in the world the handler
    has left; and every stream handed to \<open>read()\<close> ends with \<open>read()\<close> returned,
    the channel \<open>c.closed\<close> closed and the address removed from the pool;
  \<^item> a write that fails in \<open>writeMsg\<close>, for the first message of a stream (so on
    a writer whose next call fails) or for one that follows it in the inner loop,
    and a \<open>Flush\<close> that fails, make \<open>write()\<close> return: in the world
    \<open>triggerDialingWrite\<close> has left, or, when \<open>c.isClosed()\<close> answers true, in the
    world the deferred \<open>Close()\<close> leaves;
  \<^item> in both worlds \<open>c.closed\<close> is closed and the address is removed from the
    pool, and the state is \<open>ConnStateClosed\<close> when the connection has its stream;
  \<^item> whatever the script of events, the world a run of \<open>read()\<close> or of
    \<open>write()\<close> ends in is the one it started in, or that after \<open>Close()\<close>, or that
    after \<open>conn.Close()\<close> and \<open>Close()\<close>, and no send or receive on \<open>c.dialtr\<close>,
    \<open>c.readd\<close> or \<open>c.writed\<close> has been added to the effects.
\<close>

theorem incoming_fault_terminal:
  fixes w :: "('w::len) world"
  assumes "incoming (cn w)" and "\<not> closeo (cn w)"
  shows
    "triggerDialingRead e s sel w = Close (stream_closed s w)
     \<and> triggerDialingWrite ew s sel w = Close (stream_closed s w)
     \<and> (ReadLoop (conf w) (ic \<or> closed (cn w)) sl r = (EndRedial e, d) \<longrightarrow>
        read w [RHandoff s r ic sl sel]
          = Exited ReadShutdown (Close (stream_closed s w), d))
     \<and> (\<not> (ic \<or> closed (cn w)) \<and> length (avail rs) < 4 \<longrightarrow>
        read w [RHandoff s rs ic sl sel]
          = Exited ReadShutdown (Close (stream_closed s w), []))
     \<and> (\<exists>x q w'. read w (RHandoff s r ic sl sel # revs) = Exited x (w', q)
           \<and> closed (cn w') \<and> address (cn w) \<notin> conns w')
     \<and> (writeMsg (conf w) (ws_isClosed st \<or> closed (cn w)) (ws_w st) body
          = Some (wa, t, Some ew) \<longrightarrow>
        Conn_write w [WHandoff st, WBody body] =
          (if t then Exited WriteTerminate (Close w, [wa])
           else Exited WriteShutdown (Close (stream_closed (ws_conn st) w), [wa])))
     \<and> (\<not> (ws_isClosed st \<or> closed (cn w))
        \<and> wfaults (ws_w st) = Some (n, ew) # fs
        \<and> \<not> (0 < sint (MaxMessageSize (conf w))
              \<and> sint (MaxMessageSize (conf w)) < sint (len body :: 'w word)) \<longrightarrow>
        (\<exists>wa. Conn_write w [WHandoff st, WBody body]
           = Exited WriteShutdown (Close (stream_closed (ws_conn st) w), [wa])))
     \<and> (writeMsg (conf w) (ws_isClosed st \<or> closed (cn w)) (ws_w st) body
          = Some (wa, False, None)
        \<and> writeMsg (conf w) (ws_isClosed st \<or> closed (cn w)) wa body'
          = Some (wb, t, Some ew) \<longrightarrow>
        Conn_write w [WHandoff st, WBody body, WBody body'] =
          (if t then Exited WriteTerminate (Close w, [wb])
           else Exited WriteShutdown (Close (stream_closed (ws_conn st) w), [wb])))
     \<and> (writeMsg (conf w) (ws_isClosed st \<or> closed (cn w)) (ws_w st) body
          = Some (wa, False, None)
        \<and> ws_bw st \<and> Flush wa = (wb, Some ew) \<longrightarrow>
        Conn_write w [WHandoff st, WBody body, WIdle] =
          Exited WriteShutdown
            (if ws_isClosed st \<or> closed (cn w) then Close w
             else Close (stream_closed (ws_conn st) w), [wb]))
     \<and> closed (cn (Close w)) \<and> address (cn w) \<notin> conns (Close w)
     \<and> closed (cn (Close (stream_closed s w)))
     \<and> address (cn w) \<notin> conns (Close (stream_closed s w))
     \<and> (conn (cn w) \<noteq> None \<longrightarrow>
          State (Close w) = ConnStateClosed
          \<and> State (Close (stream_closed s w)) = ConnStateClosed)
     \<and> (fst (run_state (read w revs)) = w
         \<or> fst (run_state (read w revs)) = Close w
         \<or> (\<exists>s'. fst (run_state (read w revs)) = Close (stream_closed s' w)))
     \<and> (fst (run_state (Conn_write w wevs)) = w
         \<or> fst (run_state (Conn_write w wevs)) = Close w
         \<or> (\<exists>s'. fst (run_state (Conn_write w wevs)) = Close (stream_closed s' w)))
     \<and> filter redial_op (effects (fst (run_state (read w revs)))) = filter redial_op (effects w)
     \<and> filter redial_op (effects (fst (run_state (Conn_write w wevs)))) = filter redial_op (effects w)"
proof -
  note inc = assms(1) and op = assms(2)
  have h: "triggerDialingRead e s sel w = Close (stream_closed s w)
     \<and> triggerDialingWrite ew s sel w = Close (stream_closed s w)"
    using triggerDialingRead_incoming [OF inc] triggerDialingWrite_incoming [OF inc] by blast
  have 1: "ReadLoop (conf w) (ic \<or> closed (cn w)) sl r = (EndRedial e, d) \<longrightarrow>
        read w [RHandoff s r ic sl sel]
          = Exited ReadShutdown (Close (stream_closed s w), d)"
    using read_fault [OF inc op] by blast
  have 2: "\<exists>x q w'. read w (RHandoff s r ic sl sel # revs) = Exited x (w', q)
           \<and> closed (cn w') \<and> address (cn w) \<notin> conns w'"
    by (rule read_any_stream [OF inc op])
  have 3: "writeMsg (conf w) (ws_isClosed st \<or> closed (cn w)) (ws_w st) body
          = Some (wa, t, Some ew) \<longrightarrow>
        Conn_write w [WHandoff st, WBody body] =
          (if t then Exited WriteTerminate (Close w, [wa])
           else Exited WriteShutdown (Close (stream_closed (ws_conn st) w), [wa]))"
    using write_fault_first [OF inc op] by blast
  have 4: "writeMsg (conf w) (ws_isClosed st \<or> closed (cn w)) (ws_w st) body
          = Some (wa, False, None)
        \<and> writeMsg (conf w) (ws_isClosed st \<or> closed (cn w)) wa body'
          = Some (wb, t, Some ew) \<longrightarrow>
        Conn_write w [WHandoff st, WBody body, WBody body'] =
          (if t then Exited WriteTerminate (Close w, [wb])
           else Exited WriteShutdown (Close (stream_closed (ws_conn st) w), [wb]))"
    using write_fault_later [OF inc op] by blast
  have 5: "writeMsg (conf w) (ws_isClosed st \<or> closed (cn w)) (ws_w st) body
          = Some (wa, False, None)
        \<and> ws_bw st \<and> Flush wa = (wb, Some ew) \<longrightarrow>
        Conn_write w [WHandoff st, WBody body, WIdle] =
          Exited WriteShutdown
            (if ws_isClosed st \<or> closed (cn w) then Close w
             else Close (stream_closed (ws_conn st) w), [wb])"
    using write_fault_flush [OF inc op] by blast
  have 6: "closed (cn (Close w)) \<and> address (cn w) \<notin> conns (Close w)"
    by (rule Close_open [OF op])
  have 7: "closed (cn (Close (stream_closed s w)))
     \<and> address (cn w) \<notin> conns (Close (stream_closed s w))"
    using fault_world_closed [OF op] by blast
  have 8: "fst (run_state (read w revs)) = w
         \<or> fst (run_state (read w revs)) = Close w
         \<or> (\<exists>s'. fst (run_state (read w revs)) = Close (stream_closed s' w))"
    by (rule read_world_cases [OF inc op])
  have 9: "fst (run_state (Conn_write w wevs)) = w
         \<or> fst (run_state (Conn_write w wevs)) = Close w
         \<or> (\<exists>s'. fst (run_state (Conn_write w wevs)) = Close (stream_closed s' w))"
    by (rule write_world_cases [OF inc op])
  have 10: "filter redial_op (effects (fst (run_state (read w revs)))) = filter redial_op (effects w)"
    by (rule read_no_redial [OF inc])
  have 11: "filter redial_op (effects (fst (run_state (Conn_write w wevs)))) = filter redial_op (effects w)"
    by (rule write_no_redial [OF inc op])
  have 12: "conn (cn w) \<noteq> None \<longrightarrow>
          State (Close w) = ConnStateClosed
          \<and> State (Close (stream_closed s w)) = ConnStateClosed"
    using op by (simp add: Close_State)
  have 13: "\<not> (ic \<or> closed (cn w)) \<and> length (avail rs) < 4 \<longrightarrow>
        read w [RHandoff s rs ic sl sel]
          = Exited ReadShutdown (Close (stream_closed s w), [])"
    using read_short_head [OF inc op] by blast
  have 14: "\<not> (ws_isClosed st \<or> closed (cn w))
        \<and> wfaults (ws_w st) = Some (n, ew) # fs
        \<and> \<not> (0 < sint (MaxMessageSize (conf w))
              \<and> sint (MaxMessageSize (conf w)) < sint (len body :: 'w word)) \<longrightarrow>
        (\<exists>wa. Conn_write w [WHandoff st, WBody body]
           = Exited WriteShutdown (Close (stream_closed (ws_conn st) w), [wa]))"
    using write_first_call_fails [OF inc op] by blast
  show ?thesis
    using h 1 2 3 4 5 6 7 8 9 10 11 12 13 14 by blast
qed

text \<open>
  The connection that \<open>acceptConnection\<close> makes of the stream \<open>7\<close>, with a stream
  that ends inside its second head, a stream that ends inside its first, a write
  that fails at the head of the first message, one that fails at the head of the
  second, and a flush that fails after the first.
\<close>

theorem incoming_fault_terminal_witness:
  "incoming (cn world_incoming) \<and> \<not> closeo (cn world_incoming)
   \<and> conn (cn world_incoming) \<noteq> None
   \<and> ReadLoop (conf world_incoming) (False \<or> closed (cn world_incoming)) None stream_short
       = (EndRedial io_ErrUnexpectedEOF, [[5]])
   \<and> read world_incoming [RHandoff 7 stream_short False None (Drive True)]
       = Exited ReadShutdown (Close (stream_closed 7 world_incoming), [[5]])
   \<and> length (avail \<lparr>avail = [2, 0, 0], rfault = io_EOF\<rparr>) < 4
   \<and> read world_incoming [RHandoff 7 \<lparr>avail = [2, 0, 0], rfault = io_EOF\<rparr> False None (Drive True)]
       = Exited ReadShutdown (Close (stream_closed 7 world_incoming), [])
   \<and> wfaults (ws_w ws_first_fails) = [Some (0, reset)]
   \<and> MaxMessageSize (conf world_incoming) = 0
   \<and> writeMsg (conf world_incoming) (ws_isClosed ws_first_fails \<or> closed (cn world_incoming))
         (ws_w ws_first_fails) [9]
       = Some (\<lparr>wrote = [], wcalls = 1, wfaults = []\<rparr>, False, Some reset)
   \<and> Conn_write world_incoming [WHandoff ws_first_fails, WBody [9]]
       = Exited WriteShutdown (Close (stream_closed 7 world_incoming),
           [\<lparr>wrote = [], wcalls = 1, wfaults = []\<rparr>])
   \<and> writeMsg (conf world_incoming) (ws_isClosed ws_later_fails \<or> closed (cn world_incoming))
         (ws_w ws_later_fails) [9]
       = Some (\<lparr>wrote = [1, 0, 0, 0, 9], wcalls = 2, wfaults = [Some (0, reset)]\<rparr>, False, None)
   \<and> writeMsg (conf world_incoming) (ws_isClosed ws_later_fails \<or> closed (cn world_incoming))
         \<lparr>wrote = [1, 0, 0, 0, 9], wcalls = 2, wfaults = [Some (0, reset)]\<rparr> [8]
       = Some (\<lparr>wrote = [1, 0, 0, 0, 9], wcalls = 3, wfaults = []\<rparr>, False, Some reset)
   \<and> Conn_write world_incoming [WHandoff ws_later_fails, WBody [9], WBody [8]]
       = Exited WriteShutdown (Close (stream_closed 7 world_incoming),
           [\<lparr>wrote = [1, 0, 0, 0, 9], wcalls = 3, wfaults = []\<rparr>])
   \<and> ws_bw ws_later_fails
   \<and> Flush \<lparr>wrote = [1, 0, 0, 0, 9], wcalls = 2, wfaults = [Some (0, reset)]\<rparr>
       = (\<lparr>wrote = [1, 0, 0, 0, 9], wcalls = 2, wfaults = []\<rparr>, Some reset)
   \<and> Conn_write world_incoming [WHandoff ws_later_fails, WBody [9], WIdle]
       = Exited WriteShutdown (Close (stream_closed 7 world_incoming),
           [\<lparr>wrote = [1, 0, 0, 0, 9], wcalls = 2, wfaults = []\<rparr>])
   \<and> effects (Close (stream_closed 7 world_incoming)) =
        [SendDialrl 7, SendDialwl 7, NetConnClose 7, CloseChan, NetConnClose 7,
         PoolDelete ''peer'', CallOnCloseConnection ''peer'']
   \<and> State (Close (stream_closed 7 world_incoming)) = ConnStateClosed
   \<and> closed (cn (Close (stream_closed 7 world_incoming)))
   \<and> ''peer'' \<notin> conns (Close (stream_closed 7 world_incoming))
   \<and> filter redial_op (effects world_incoming) = []"
proof -
  let ?w1 = "\<lparr>wrote = [1, 0, 0, 0, 9], wcalls = 2, wfaults = [Some (0, reset)]\<rparr>"
  let ?w2 = "\<lparr>wrote = [1, 0, 0, 0, 9], wcalls = 3, wfaults = []\<rparr>"
  let ?w3 = "\<lparr>wrote = [1, 0, 0, 0, 9], wcalls = 2, wfaults = []\<rparr>"
  let ?w0 = "\<lparr>wrote = [], wcalls = 1, wfaults = []\<rparr>"
  have i: "incoming (cn world_incoming)" and c: "\<not> closeo (cn world_incoming)"
    and nc: "\<not> closed (cn world_incoming)"
    by (simp_all add: world_incoming_def)
  have a: "address (cn world_incoming) = ''peer''"
    and cs: "conn (cn world_incoming) \<noteq> None"
    by (simp_all add: world_incoming_def)
  have m1: "writeMsg (conf world_incoming)
        (ws_isClosed ws_first_fails \<or> closed (cn world_incoming)) (ws_w ws_first_fails) [9]
       = Some (?w0, False, Some reset)"
    by (simp add: writeMsg_def world_incoming_def cfg_incoming_def ws_first_fails_def
        LittleEndian_PutUint32_def make_bytes_def Write_def len_def)
  have m2: "writeMsg (conf world_incoming)
        (ws_isClosed ws_later_fails \<or> closed (cn world_incoming)) (ws_w ws_later_fails) [9]
       = Some (?w1, False, None)"
    by (simp add: writeMsg_def world_incoming_def cfg_incoming_def ws_later_fails_def
        LittleEndian_PutUint32_def make_bytes_def Write_def len_def)
  have m3: "writeMsg (conf world_incoming)
        (ws_isClosed ws_later_fails \<or> closed (cn world_incoming)) ?w1 [8]
       = Some (?w2, False, Some reset)"
    by (simp add: writeMsg_def world_incoming_def cfg_incoming_def ws_later_fails_def
        LittleEndian_PutUint32_def make_bytes_def Write_def len_def)
  have b: "ws_bw ws_later_fails" and ic: "\<not> ws_isClosed ws_later_fails"
    and s1: "ws_conn ws_first_fails = 7" and s2: "ws_conn ws_later_fails = 7"
    by (simp_all add: ws_later_fails_def ws_first_fails_def)
  have fl: "Flush ?w1 = (?w3, Some reset)"
    by (simp add: Flush_def)
  have e: "effects (Close (stream_closed 7 world_incoming)) =
        [SendDialrl 7, SendDialwl 7, NetConnClose 7, CloseChan, NetConnClose 7,
         PoolDelete ''peer'', CallOnCloseConnection ''peer'']"
    and f: "filter redial_op (effects world_incoming) = []"
    by (simp_all add: world_incoming_def cfg_incoming_def Close_def Let_def closeConnection_def
        Pool_delete_def State_def redial_op_def stream_closed_def)
  note t1 = incoming_fault_terminal [OF i c, where ic = False and sl = None
      and r = stream_short and e = io_ErrUnexpectedEOF and d = "[[5]]" and s = 7
      and sel = "Drive True" and st = ws_first_fails and body = "[9]" and wa = ?w0
      and t = False and ew = reset and n = 0 and fs = "[]"
      and rs = "\<lparr>avail = [2, 0, 0], rfault = io_EOF\<rparr>", unfolded a s1]
  note t2 = incoming_fault_terminal [OF i c, where st = ws_later_fails and body = "[9]"
      and wa = ?w1 and body' = "[8]" and wb = ?w2 and t = False and ew = reset,
      unfolded s2]
  note t3 = incoming_fault_terminal [OF i c, where st = ws_later_fails and body = "[9]"
      and wa = ?w1 and wb = ?w3 and ew = reset, unfolded s2]
  have r1: "read world_incoming [RHandoff 7 stream_short False None (Drive True)]
       = Exited ReadShutdown (Close (stream_closed 7 world_incoming), [[5]])"
    and x1: "Conn_write world_incoming [WHandoff ws_first_fails, WBody [9]]
       = Exited WriteShutdown (Close (stream_closed 7 world_incoming), [?w0])"
    and cl: "closed (cn (Close (stream_closed 7 world_incoming)))"
    and pd: "''peer'' \<notin> conns (Close (stream_closed 7 world_incoming))"
    and st: "State (Close (stream_closed 7 world_incoming)) = ConnStateClosed"
    and r2: "read world_incoming
        [RHandoff 7 \<lparr>avail = [2, 0, 0], rfault = io_EOF\<rparr> False None (Drive True)]
       = Exited ReadShutdown (Close (stream_closed 7 world_incoming), [])"
    using t1 ReadLoop_stream_short m1 cs nc by simp_all
  have wf: "wfaults (ws_w ws_first_fails) = [Some (0, reset)]"
    and mx: "MaxMessageSize (conf world_incoming) = 0"
    and sh: "length (avail \<lparr>avail = [2, 0, 0], rfault = io_EOF\<rparr>) < 4"
    by (simp_all add: ws_first_fails_def world_incoming_def cfg_incoming_def)
  have x2: "Conn_write world_incoming [WHandoff ws_later_fails, WBody [9], WBody [8]]
       = Exited WriteShutdown (Close (stream_closed 7 world_incoming), [?w2])"
    using t2 m2 m3 by simp
  have x3: "Conn_write world_incoming [WHandoff ws_later_fails, WBody [9], WIdle]
       = Exited WriteShutdown (Close (stream_closed 7 world_incoming), [?w3])"
    using t3 m2 b fl ic nc by simp
  show ?thesis
    using i c cs ReadLoop_stream_short r1 sh r2 wf mx m1 x1 m2 m3 x2 b fl x3 e st cl pd f
    by blast
qed

declare stream_closed_fields [simp del] Close_cn_fields [simp del]

lemma acceptConnection_world_incoming:
  "acceptConnection cfg_incoming {} 7 ''peer'' ReadThenWrite = Inr world_incoming"
  by (simp add: acceptConnection_def triggerReadWrite_def updateConnection_def Let_def
      world_incoming_def)

section \<open>The dial activity\<close>

lemma dial_attempts_append [simp]:
  "dial_attempts (xs @ ys) = dial_attempts xs + dial_attempts ys"
  by (simp add: dial_attempts_def)

lemma dial_failed_fields [simp]:
  "diallm (dial_failed e st) = diallm st"
  "tm (dial_failed e st) = redial_backoff (MaxRedialTimeout (conf (wld st))) (tm st)"
  "conf (wld (dial_failed e st)) = conf (wld st)"
  "dial_attempts (effects (wld (dial_failed e st))) = dial_attempts (effects (wld st))"
  by (simp_all add: dial_failed_def Let_def add_effect_def dial_attempts_def)

lemma add_CallDialing_fields [simp]:
  "diallm (add_effect CallDialing st) = diallm st"
  "tm (add_effect CallDialing st) = tm st"
  "conf (wld (add_effect CallDialing st)) = conf (wld st)"
  "dial_attempts (effects (wld (add_effect CallDialing st))) = Suc (dial_attempts (effects (wld st)))"
  by (simp_all add: add_effect_def dial_attempts_def)

lemma DialLoop_enter_no_callback:
  "OnDial (conf (wld st)) = None \<Longrightarrow>
   DialLoop_enter st =
     (if diallm st = 0 then Inl (Returned LimitExceeded st) else Inr (st\<lparr>diallm := diallm st - 1\<rparr>))"
  by (simp add: DialLoop_enter_def Let_def)

lemma DialLoop_fails:
  fixes st :: "('w::len) dial_state"
  assumes "OnDial (conf (wld st)) = None" and "length es \<le> unat (diallm st)"
  shows "\<exists>st'. DialLoop st (fails es) =
           (if length es = unat (diallm st) then Returned LimitExceeded st' else Parked st')
         \<and> dial_attempts (effects (wld st')) =
             dial_attempts (effects (wld st)) + length es + (if length es = unat (diallm st) then 0 else 1)
         \<and> tm st' = (redial_backoff (MaxRedialTimeout (conf (wld st))) ^^ length es) (tm st)"
  using assms
proof (induction es arbitrary: st)
  case Nil
  show ?case
  proof (cases "diallm st = 0")
    case True
    then show ?thesis
      using Nil by (simp add: fails_def DialLoop_enter_no_callback)
  next
    case False
    then have "unat (diallm st) \<noteq> 0" by (simp add: unat_eq_0)
    then show ?thesis
      using Nil False by (simp add: fails_def DialLoop_enter_no_callback)
  qed
next
  case (Cons e es)
  from Cons.prems have nz: "diallm st \<noteq> 0" by auto
  let ?st1 = "st\<lparr>diallm := diallm st - 1\<rparr>"
  let ?st3 = "dial_failed e (add_effect CallDialing ?st1)"
  have u: "unat (diallm ?st3) = unat (diallm st) - 1"
    using nz by (simp add: unat_minus_one)
  have c: "conf (wld ?st3) = conf (wld st)" by simp
  have step: "DialLoop st (fails (e # es)) = DialLoop ?st3 (fails es)"
    using nz Cons.prems by (simp add: fails_def DialLoop_enter_no_callback)
  have p1: "OnDial (conf (wld ?st3)) = None" using Cons.prems by simp
  have p2: "length es \<le> unat (diallm ?st3)" using Cons.prems u by simp
  from Cons.IH [OF p1 p2] obtain st' where
    r: "DialLoop ?st3 (fails es) =
           (if length es = unat (diallm ?st3) then Returned LimitExceeded st' else Parked st')"
    and a: "dial_attempts (effects (wld st')) =
             dial_attempts (effects (wld ?st3)) + length es + (if length es = unat (diallm ?st3) then 0 else 1)"
    and t: "tm st' = (redial_backoff (MaxRedialTimeout (conf (wld ?st3))) ^^ length es) (tm ?st3)"
    by blast
  have eq: "(length es = unat (diallm ?st3)) = (length (e # es) = unat (diallm st))"
    using u Cons.prems by auto
  have t': "tm st' = (redial_backoff (MaxRedialTimeout (conf (wld st))) ^^ length (e # es)) (tm st)"
    using t by (simp add: funpow_swap1)
  have a': "dial_attempts (effects (wld st')) =
     dial_attempts (effects (wld st)) + length (e # es) + (if length (e # es) = unat (diallm st) then 0 else 1)"
    using a eq by simp
  show ?case
    using step r eq a' t' by (metis (full_types))
qed

lemma DialLoop_enter_Inl:
  "DialLoop_enter st = Inl r \<Longrightarrow> dial_budget (result_state r) \<le> dial_budget st
     \<and> dial_attempts (effects (wld (result_state r))) = dial_attempts (effects (wld st))"
  by (auto simp: DialLoop_enter_def Let_def dial_budget_def unat_minus_one
      split: if_splits option.splits)

lemma DialLoop_enter_Inr:
  "DialLoop_enter st = Inr st1 \<Longrightarrow>
     dial_attempts (effects (wld st1)) = dial_attempts (effects (wld st))
     \<and> Suc (unat (diallm st1)) = unat (diallm st)"
proof -
  assume a: "DialLoop_enter st = Inr st1"
  then have nz: "diallm st \<noteq> 0"
    by (auto simp: DialLoop_enter_def split: if_splits)
  then have "unat (diallm st) \<noteq> 0" by (simp add: unat_eq_0)
  then have u: "Suc (unat (diallm st - 1)) = unat (diallm st)"
    using nz by (simp add: unat_minus_one)
  from a nz show ?thesis
    using u by (auto simp: DialLoop_enter_def Let_def split: if_splits option.splits)
qed

lemma triggerReadWrite_attempts [simp]:
  "dial_attempts (effects (triggerReadWrite s h w)) = dial_attempts (effects w)"
  by (cases h) (simp_all add: triggerReadWrite_def updateConnection_def Let_def dial_attempts_def)

lemma dial_budget_dial_failed [simp]:
  "dial_budget (dial_failed e st) = dial_budget st"
  by (simp add: dial_budget_def)

lemma loops_budget:
  fixes st :: "('w::len) dial_state"
  shows "dial_budget (result_state (TriggerLoop st evs)) \<le> dial_budget st"
    and "dial_budget (result_state (DialLoop st evs)) \<le> dial_budget st"
proof (induction st evs and st evs rule: TriggerLoop_DialLoop.induct)
  case (6 st evs)
  show ?case
  proof (cases "DialLoop_enter st")
    case (Inl r)
    then show ?thesis using DialLoop_enter_Inl [OF Inl] by simp
  next
    case (Inr st1)
    let ?st2 = "add_effect CallDialing st1"
    have b: "dial_budget ?st2 = dial_budget st"
      using DialLoop_enter_Inr [OF Inr] by (simp add: dial_budget_def)
    show ?thesis
    proof (cases evs)
      case Nil
      then show ?thesis using Inr b by simp
    next
      case (Cons ev evs')
      show ?thesis
      proof (cases ev)
        case (Trigger x)
        then show ?thesis using Inr Cons b by simp
      next
        case Shutdown
        then show ?thesis using Inr Cons b by simp
      next
        case (DialFailed e c)
        show ?thesis
        proof (cases c)
          case True
          then show ?thesis using Inr Cons DialFailed b by simp
        next
          case False
          have "dial_budget (result_state (DialLoop (dial_failed e ?st2) evs'))
              \<le> dial_budget (dial_failed e ?st2)"
            using "6.IH"(1) [OF Inr refl Cons DialFailed False] .
          then show ?thesis using Inr Cons DialFailed False b by simp
        qed
      next
        case (DialSucceeded s h)
        let ?st3 = "?st2\<lparr>err := None, wld := triggerReadWrite s h (wld ?st2)\<rparr>"
        have "dial_budget (result_state (TriggerLoop ?st3 evs')) \<le> dial_budget ?st3"
          using "6.IH"(2) [OF Inr refl Cons DialSucceeded] .
        moreover have "dial_budget ?st3 = dial_budget ?st2"
          by (simp add: dial_budget_def)
        ultimately show ?thesis using Inr Cons DialSucceeded b by (simp add: Let_def)
      qed
    qed
  qed
qed (simp_all add: dial_budget_def)

lemma result_state_dial:
  "result_state (dial w N evs) =
     (case TriggerLoop \<lparr>wld = w, diallm = (if N = 0 then N - 1 else N), tm = 0, err = None\<rparr> evs of
        Returned x st \<Rightarrow> st\<lparr>wld := Close (wld st)\<rparr>
      | Parked st \<Rightarrow> st
      | Mismatch st \<Rightarrow> st)"
  by (simp add: dial_def split: dial_result.split)

lemma dial_attempts_bound:
  fixes w :: "('w::len) world"
  shows "dial_attempts (effects (wld (result_state (dial w N evs))))
     \<le> dial_attempts (effects w) + unat (if N = 0 then N - 1 else N)"
proof -
  let ?st = "\<lparr>wld = w, diallm = (if N = 0 then N - 1 else N), tm = 0, err = None\<rparr>"
  have "dial_budget (result_state (TriggerLoop ?st evs)) \<le> dial_budget ?st"
    by (rule loops_budget)
  then have "dial_attempts (effects (wld (result_state (TriggerLoop ?st evs))))
     \<le> dial_attempts (effects w) + unat (if N = 0 then N - 1 else N)"
    by (simp add: dial_budget_def)
  then show ?thesis
    unfolding result_state_dial by (cases "TriggerLoop ?st evs") simp_all
qed

lemma dial_fails:
  fixes w :: "('w::len) world"
  assumes cb: "OnDial (conf w) = None"
    and le: "length es \<le> unat (if N = 0 then N - 1 else N)"
  shows "\<exists>st. dial w N (Trigger e0 # fails es) =
           (if length es = unat (if N = 0 then N - 1 else N)
            then Returned LimitExceeded (st\<lparr>wld := Close (wld st)\<rparr>) else Parked st)
         \<and> dial_attempts (effects (wld st)) =
             dial_attempts (effects w) + length es
               + (if length es = unat (if N = 0 then N - 1 else N) then 0 else 1)
         \<and> tm st = (redial_backoff (MaxRedialTimeout (conf w)) ^^ length es) (RedialTimeout (conf w))"
proof -
  let ?d = "if N = 0 then N - 1 else N"
  let ?st = "\<lparr>wld = w, diallm = ?d, tm = RedialTimeout (conf w), err = e0\<rparr>"
  have p1: "OnDial (conf (wld ?st)) = None" using cb by simp
  have p2: "length es \<le> unat (diallm ?st)" using le by simp
  from DialLoop_fails [OF p1 p2] obtain st where
    r: "DialLoop ?st (fails es) =
           (if length es = unat (diallm ?st) then Returned LimitExceeded st else Parked st)"
    and a: "dial_attempts (effects (wld st)) =
             dial_attempts (effects (wld ?st)) + length es + (if length es = unat (diallm ?st) then 0 else 1)"
    and t: "tm st = (redial_backoff (MaxRedialTimeout (conf (wld ?st))) ^^ length es) (tm ?st)"
    by blast
  have "dial w N (Trigger e0 # fails es) =
           (if length es = unat ?d
            then Returned LimitExceeded (st\<lparr>wld := Close (wld st)\<rparr>) else Parked st)"
    using r by (simp add: dial_def)
  with a t show ?thesis by auto
qed

lemma unat_positive_sint:
  fixes N :: "'w::len word"
  assumes "0 < sint N"
  shows "unat N = nat (sint N)"
proof -
  have "uint N < 2 ^ (LENGTH('w) - 1)"
  proof (rule ccontr)
    assume "\<not> uint N < 2 ^ (LENGTH('w) - 1)"
    then have "2 ^ (LENGTH('w) - 1) \<le> uint N" by (simp only: not_less)
    then have "sint N < 0" by (rule sint_negative_big)
    with assms show False by linarith
  qed
  then have s: "sint N = uint N" by (rule sint_eq_uint_small)
  have "unat N = nat (uint N)" by (rule unat_eq_nat_uint)
  then show ?thesis by (simp only: s)
qed

text \<open>
  A positive limit is exact.  With \<open>DialsLimit = N > 0\<close>, no run of the dial
  activity calls \<open>c.dialing()\<close> more than \<open>N\<close> times; and when no callback is set
  and every dial fails, the first \<open>N\<close> iterations dial, and the iteration after
  the \<open>N\<close>-th failure finds the counter at zero and returns, which closes the
  connection, without dialing again.
\<close>

lemma DialsLimit_positive:
  fixes w :: "('w::len) world"
  assumes N: "0 < sint N"
  shows "dial_attempts (effects (wld (result_state (dial w N evs))))
           \<le> dial_attempts (effects w) + nat (sint N)"
    and "OnDial (conf w) = None \<Longrightarrow> length es < nat (sint N) \<Longrightarrow>
           \<exists>st. dial w N (Trigger e0 # fails es) = Parked st
              \<and> dial_attempts (effects (wld st)) = dial_attempts (effects w) + length es + 1"
    and "OnDial (conf w) = None \<Longrightarrow> length es = nat (sint N) \<Longrightarrow>
           \<exists>st. dial w N (Trigger e0 # fails es) = Returned LimitExceeded st
              \<and> dial_attempts (effects (wld st)) = dial_attempts (effects w) + nat (sint N)
              \<and> closeo (cn (wld st))"
proof -
  have nz: "N \<noteq> 0" using N by auto
  have u: "unat (if N = 0 then N - 1 else N) = nat (sint N)"
    using nz unat_positive_sint [OF N] by simp
  show "dial_attempts (effects (wld (result_state (dial w N evs))))
           \<le> dial_attempts (effects w) + nat (sint N)"
    using dial_attempts_bound [of w N evs] u by simp
  {
    assume cb: "OnDial (conf w) = None" and l: "length es < nat (sint N)"
    then have le: "length es \<le> unat (if N = 0 then N - 1 else N)" using u by simp
    from dial_fails [OF cb le, of e0] l u
    show "\<exists>st. dial w N (Trigger e0 # fails es) = Parked st
              \<and> dial_attempts (effects (wld st)) = dial_attempts (effects w) + length es + 1"
      by auto
  }
  {
    assume cb: "OnDial (conf w) = None" and l: "length es = nat (sint N)"
    then have le: "length es \<le> unat (if N = 0 then N - 1 else N)" using u by simp
    from dial_fails [OF cb le, of e0] obtain st where
      r: "dial w N (Trigger e0 # fails es) = Returned LimitExceeded (st\<lparr>wld := Close (wld st)\<rparr>)"
      and a: "dial_attempts (effects (wld st)) = dial_attempts (effects w) + length es"
      using l u by auto
    have "dial_attempts (effects (wld (st\<lparr>wld := Close (wld st)\<rparr>))) =
        dial_attempts (effects w) + nat (sint N)"
      using a l by simp
    moreover have "closeo (cn (wld (st\<lparr>wld := Close (wld st)\<rparr>)))"
      by (simp add: Close_closeo)
    ultimately show "\<exists>st. dial w N (Trigger e0 # fails es) = Returned LimitExceeded st
              \<and> dial_attempts (effects (wld st)) = dial_attempts (effects w) + nat (sint N)
              \<and> closeo (cn (wld st))"
      using r by blast
  }
qed

text \<open>
  Claim C3, at \<open>DialsLimit = 0\<close> on a host whose \<open>int\<close> has 32 bits.  The counter
  starts at \<open>-1\<close> and every iteration decrements it; after \<open>2 ^ 32 - 1\<close> failed
  dials it has wrapped around to zero, and the next iteration returns with the
  limit exceeded and closes the connection.  No run at all of the dial activity
  makes more than \<open>2 ^ 32 - 1\<close> attempts.
\<close>

theorem DialsLimit_zero_wraps:
  "DialsLimit (conf world32) = 0
   \<and> (\<exists>st. dial world32 (DialsLimit (conf world32))
              (Trigger None # fails (replicate 4294967295 refused)) = Returned LimitExceeded st
           \<and> dial_attempts (effects (wld st)) = 4294967295)
   \<and> (\<forall>evs. dial_attempts (effects (wld (result_state
          (dial world32 (DialsLimit (conf world32)) evs)))) \<le> 4294967295)"
proof -
  have c: "conf world32 = cfg_retry32"
    by (simp add: world32_def createConnection_def triggerDialing_def)
  have a0: "dial_attempts (effects world32) = 0"
    by (simp add: world32_def createConnection_def triggerDialing_def dial_attempts_def)
  have cb: "OnDial (conf world32) = None" by (simp add: c cfg_retry32_def)
  have d: "DialsLimit (conf world32) = 0" by (simp add: c cfg_retry32_def)
  have u: "unat (if (0::32 word) = 0 then 0 - 1 else (0::32 word)) = 4294967295"
    by (simp add: unsigned_minus_1_eq_mask mask_eq_exp_minus_1)
  have u': "unat (- 1 :: 32 word) = 4294967295"
    by (simp add: unsigned_minus_1_eq_mask mask_eq_exp_minus_1)
  have le: "length (replicate 4294967295 refused) \<le> unat (if (0::32 word) = 0 then 0 - 1 else (0::32 word))"
    by (simp only: u length_replicate)
  from dial_fails [where w = world32 and N = 0 and es = "replicate 4294967295 refused" and ?e0.0 = None,
      OF cb le]
  obtain st where
    r: "dial world32 0 (Trigger None # fails (replicate 4294967295 refused)) =
          Returned LimitExceeded (st\<lparr>wld := Close (wld st)\<rparr>)"
    and a: "dial_attempts (effects (wld st)) = 4294967295"
    by (auto simp: a0 u')
  have "dial_attempts (effects (wld (st\<lparr>wld := Close (wld st)\<rparr>))) = 4294967295"
    using a by simp
  with r d have run: "\<exists>st. dial world32 (DialsLimit (conf world32))
              (Trigger None # fails (replicate 4294967295 refused)) = Returned LimitExceeded st
           \<and> dial_attempts (effects (wld st)) = 4294967295"
    by (metis (no_types))
  have bound: "\<forall>evs. dial_attempts (effects (wld (result_state
          (dial world32 (DialsLimit (conf world32)) evs)))) \<le> 4294967295"
  proof
    fix evs
    show "dial_attempts (effects (wld (result_state
          (dial world32 (DialsLimit (conf world32)) evs)))) \<le> 4294967295"
      using dial_attempts_bound [of world32 0 evs] by (simp add: d a0 u')
  qed
  from d run bound show ?thesis by blast
qed

section \<open>The redial backoff\<close>

lemma sint_100ms: "sint (100 * 1000000 :: Duration) = 100000000"
  by simp

lemma redial_backoff_zero:
  assumes "0 < sint mx"
  shows "sint (redial_backoff mx 0) = min 100000000 (sint mx)"
  using assms by (simp add: redial_backoff_def Let_def min_def)

lemma sint_double:
  fixes t :: Duration
  assumes "- (2 ^ 63) \<le> 2 * sint t" and "2 * sint t < 2 ^ 63"
  shows "sint (t * 2) = 2 * sint t"
proof -
  have "sint (t * 2) = signed_take_bit (LENGTH(64) - 1) (sint t * sint (2 :: Duration))"
    by (rule sint_word_mult)
  also have "sint (2 :: Duration) = 2" by simp
  finally have "sint (t * 2) = signed_take_bit 63 (sint t * 2)" by simp
  also have "\<dots> = sint t * 2"
    using assms by (intro signed_take_bit_int_eq_self) simp_all
  finally show ?thesis by simp
qed

lemma redial_backoff_double:
  assumes "t \<noteq> 0" and "sint t < sint mx"
    and "- (2 ^ 63) \<le> 2 * sint t" and "2 * sint t < 2 ^ 63"
  shows "sint (redial_backoff mx t) = min (2 * sint t) (sint mx)"
  using assms by (simp add: redial_backoff_def Let_def min_def sint_double)

lemma redial_backoff_unchanged:
  "sint mx \<le> sint t \<Longrightarrow> redial_backoff mx t = t"
  by (simp add: redial_backoff_def)

lemma redial_backoff_capped:
  "sint t \<le> sint mx \<Longrightarrow> sint (redial_backoff mx t) \<le> sint mx"
  by (simp add: redial_backoff_def Let_def)

lemma redial_backoff_funpow_capped:
  "sint t \<le> sint mx \<Longrightarrow> sint ((redial_backoff mx ^^ n) t) \<le> sint mx"
  by (induction n) (simp_all add: redial_backoff_capped)

lemma unat_counter_nonzero:
  fixes N :: "'w::len word"
  shows "1 \<le> unat (if N = 0 then N - 1 else N)"
proof -
  have "(if N = 0 then N - 1 else N) \<noteq> 0" by simp
  then have "unat (if N = 0 then N - 1 else N) \<noteq> 0" by (simp only: unat_eq_0 not_False_eq_True)
  then show ?thesis by linarith
qed

lemma tm_after_fails:
  fixes w :: "('w::len) world"
  assumes cb: "OnDial (conf w) = None"
    and le: "length es \<le> unat (if N = 0 then N - 1 else N)"
  shows "tm (result_state (dial w N (Trigger e0 # fails es))) =
     (redial_backoff (MaxRedialTimeout (conf w)) ^^ length es) (RedialTimeout (conf w))"
proof -
  from dial_fails [OF cb le, of e0] obtain st where
    r: "dial w N (Trigger e0 # fails es) =
           (if length es = unat (if N = 0 then N - 1 else N)
            then Returned LimitExceeded (st\<lparr>wld := Close (wld st)\<rparr>) else Parked st)"
    and t: "tm st = (redial_backoff (MaxRedialTimeout (conf w)) ^^ length es) (RedialTimeout (conf w))"
    by blast
  show ?thesis
    unfolding r using t by simp
qed

text \<open>
  Claim C2, as amended.  A failed dial replaces the backoff \<open>tm\<close> by
  \<open>redial_backoff MaxRedialTimeout tm\<close>.  When the backoff is below
  \<open>MaxRedialTimeout\<close>: a zero backoff becomes 100 ms, any other backoff is doubled
  (as long as the double fits in 64 bits), and the result is capped at
  \<open>MaxRedialTimeout\<close>.  A backoff that is not below \<open>MaxRedialTimeout\<close> is left
  as it is.  So a backoff that starts at or below \<open>MaxRedialTimeout\<close> never
  exceeds it, after any number of failed dials.  In a run of the dial activity
  with no callback, after a trigger and \<open>k\<close> failed dials within the limit the
  backoff is the \<open>k\<close>-fold update of \<open>RedialTimeout\<close>; with \<open>RedialTimeout = 0\<close>
  and \<open>MaxRedialTimeout\<close> at least 100 ms it is 100 ms after the first failed dial.
\<close>

theorem redial_backoff_rule:
  fixes w :: "('w::len) world" and st :: "('w::len) dial_state"
  shows
    "tm (dial_failed e st) = redial_backoff (MaxRedialTimeout (conf (wld st))) (tm st)
     \<and> (0 < sint mx \<longrightarrow> sint (redial_backoff mx 0) = min 100000000 (sint mx))
     \<and> (t \<noteq> 0 \<and> sint t < sint mx \<and> - (2 ^ 63) \<le> 2 * sint t \<and> 2 * sint t < 2 ^ 63 \<longrightarrow>
          sint (redial_backoff mx t) = min (2 * sint t) (sint mx))
     \<and> (sint mx \<le> sint t \<longrightarrow> redial_backoff mx t = t)
     \<and> (sint t \<le> sint mx \<longrightarrow> sint ((redial_backoff mx ^^ n) t) \<le> sint mx)
     \<and> (OnDial (conf w) = None \<and> length es \<le> unat (if N = 0 then N - 1 else N) \<longrightarrow>
          tm (result_state (dial w N (Trigger e0 # fails es))) =
            (redial_backoff (MaxRedialTimeout (conf w)) ^^ length es) (RedialTimeout (conf w)))
     \<and> (OnDial (conf w) = None \<and> RedialTimeout (conf w) = 0
          \<and> 100000000 \<le> sint (MaxRedialTimeout (conf w)) \<longrightarrow>
          sint (tm (result_state (dial w N [Trigger e0, DialFailed e False]))) = 100000000)"
proof (intro conjI impI)
  show "tm (dial_failed e st) = redial_backoff (MaxRedialTimeout (conf (wld st))) (tm st)"
    by simp
next
  assume "0 < sint mx"
  then show "sint (redial_backoff mx 0) = min 100000000 (sint mx)"
    by (rule redial_backoff_zero)
next
  assume "t \<noteq> 0 \<and> sint t < sint mx \<and> - (2 ^ 63) \<le> 2 * sint t \<and> 2 * sint t < 2 ^ 63"
  then show "sint (redial_backoff mx t) = min (2 * sint t) (sint mx)"
    using redial_backoff_double by blast
next
  assume "sint mx \<le> sint t"
  then show "redial_backoff mx t = t" by (rule redial_backoff_unchanged)
next
  assume "sint t \<le> sint mx"
  then show "sint ((redial_backoff mx ^^ n) t) \<le> sint mx"
    by (rule redial_backoff_funpow_capped)
next
  assume "OnDial (conf w) = None \<and> length es \<le> unat (if N = 0 then N - 1 else N)"
  then show "tm (result_state (dial w N (Trigger e0 # fails es))) =
            (redial_backoff (MaxRedialTimeout (conf w)) ^^ length es) (RedialTimeout (conf w))"
    using tm_after_fails by blast
next
  assume a: "OnDial (conf w) = None \<and> RedialTimeout (conf w) = 0
          \<and> 100000000 \<le> sint (MaxRedialTimeout (conf w))"
  have le: "length [e] \<le> unat (if N = 0 then N - 1 else N)"
    using unat_counter_nonzero [of N] by simp
  have f: "[Trigger e0, DialFailed e False] = Trigger e0 # fails [e]"
    by (simp add: fails_def)
  have "tm (result_state (dial w N [Trigger e0, DialFailed e False])) =
      redial_backoff (MaxRedialTimeout (conf w)) 0"
    unfolding f using tm_after_fails [of w "[e]" N e0] a le by simp
  moreover have "sint (redial_backoff (MaxRedialTimeout (conf w)) 0) = 100000000"
    using redial_backoff_zero [of "MaxRedialTimeout (conf w)"] a by simp
  ultimately show "sint (tm (result_state (dial w N [Trigger e0, DialFailed e False]))) = 100000000"
    by simp
qed

theorem redial_backoff_rule_witness:
  "sint (tm (dial_failed refused \<lparr>wld = world_backoff, diallm = - 1, tm = 200000000, err = None\<rparr>))
      = 400000000
   \<and> sint (redial_backoff 5000000000 0) = 100000000
   \<and> sint (redial_backoff 5000000000 4000000000) = 5000000000
   \<and> redial_backoff 5000000000 7000000000 = 7000000000
   \<and> sint ((redial_backoff 5000000000 ^^ Suc (Suc 0)) 100000000) \<le> 5000000000
   \<and> sint (tm (result_state (dial world_backoff 0
         (Trigger None # fails [refused, refused, refused])))) = 400000000
   \<and> sint (tm (result_state (dial world_backoff 0 [Trigger None, DialFailed refused False])))
       = 100000000"
proof -
  have c: "conf world_backoff = cfg_backoff"
    by (simp add: world_backoff_def createConnection_def triggerDialing_def)
  have u: "unat (- 1 :: 64 word) = 18446744073709551615"
    by (simp add: unsigned_minus_1_eq_mask mask_eq_exp_minus_1)
  note r = redial_backoff_rule [where e = refused
      and st = "\<lparr>wld = world_backoff, diallm = - 1, tm = 200000000, err = None\<rparr>"
      and w = world_backoff and N = 0 and es = "[refused, refused, refused]" and ?e0.0 = None
      and n = "Suc (Suc 0)"]
  show ?thesis
    using r [where mx = 5000000000 and t = 4000000000]
      r [where mx = 5000000000 and t = 7000000000]
      r [where mx = 5000000000 and t = 100000000]
    by (simp add: c u cfg_backoff_def redial_backoff_def Let_def)
qed

text \<open>
  The claim as stated speaks of every configuration.  With \<open>RedialTimeout = 0\<close>
  and \<open>MaxRedialTimeout = 0\<close> the backoff after the first failed dial is 0, not
  100 ms; with \<open>RedialTimeout\<close> 10 s and \<open>MaxRedialTimeout\<close> 5 s it is 10 s, above
  \<open>MaxRedialTimeout\<close>.
\<close>

theorem redial_backoff_counterexample:
  "RedialTimeout (conf world_zero) = 0
   \<and> tm (result_state (dial world_zero (DialsLimit (conf world_zero))
          [Trigger None, DialFailed refused False])) = 0
   \<and> sint (MaxRedialTimeout (conf world_over)) = 5000000000
   \<and> sint (tm (result_state (dial world_over (DialsLimit (conf world_over))
          [Trigger None, DialFailed refused False]))) = 10000000000"
  by (simp add: world_zero_def world_over_def cfg_unbounded_def cfg_over_def createConnection_def
      triggerDialing_def dial_def DialLoop_enter_def Let_def add_effect_def dial_failed_def
      redial_backoff_def)

end
